theory Spec2Isabelle
  imports Complex_Main "HOL-Library.Log_Nat" "HOL-Library.Multiset" "HOL-Library.Char_ord" "HOL-Library.List_Lexorder"
begin

section \<open>JavaScript numbers\<close>

text \<open>
  The dashboard computes with JavaScript numbers, the binary64 values of IEEE 754. A
  number is \<open>NaN\<close>, an infinity, or a finite value, kept as the rational it is equal to.
  Every arithmetic operation computes the exact result and rounds it to the nearest
  binary64 value, a tie going to the even significand, and a result beyond the largest
  finite value becomes an infinity. The sign of zero is not represented: no computation of
  the dashboard tells the two zeros apart (its one division has a positive divisor).
\<close>

datatype jsnum = NaN | NInf | PInf | Fin rat

definition pow2 :: "int \<Rightarrow> rat" where
  "pow2 e = (if 0 \<le> e then 2 ^ nat e else 1 / 2 ^ nat (- e))"

text \<open>The exponent \<open>e\<close> of a positive rational: \<open>2^e \<le> a < 2^(e+1)\<close>.\<close>

definition floorLog2 :: "rat \<Rightarrow> int" where
  "floorLog2 a = (if 1 \<le> a then bitlen \<lfloor>a\<rfloor> - 1 else - bitlen (\<lceil>1 / a\<rceil> - 1))"

definition roundHalfEvenAt :: "rat \<Rightarrow> int \<Rightarrow> int" where
  "roundHalfEvenAt x f =
     (if x - of_int f < 1 / 2 then f
      else if 1 / 2 < x - of_int f then f + 1
      else if even f then f else f + 1)"

definition roundHalfEven :: "rat \<Rightarrow> int" where
  "roundHalfEven x = roundHalfEvenAt x \<lfloor>x\<rfloor>"

text \<open>
  Rounding a positive magnitude: the significand has 53 bits, so the last place of a value
  with exponent \<open>e\<close> is \<open>2^(e - 52)\<close>, and never below \<open>2^(-1074)\<close>, the last place of the
  subnormal numbers.
\<close>

definition roundAt :: "rat \<Rightarrow> int \<Rightarrow> rat" where
  "roundAt a q = of_int (roundHalfEven (a / pow2 q)) * pow2 q"

definition roundMagnitude :: "rat \<Rightarrow> rat" where
  "roundMagnitude a = roundAt a (max (floorLog2 a - 52) (- 1074))"

text \<open>\<open>Number.MAX_VALUE\<close>, which is \<open>2^1024 - 2^971\<close>.\<close>

definition MAX_VALUE :: rat where
  "MAX_VALUE = 179769313486231570814527423731704356798070567525844996598917476803157260780028538760589558632766878171540458953514382464234321326889464182768467546703537516986049910576551282076245490090389328944075868508455133942304583236903222948165808559332123348274797826204144723168738177180919299881250404026184124858368"

definition signedResult :: "bool \<Rightarrow> rat \<Rightarrow> jsnum" where
  "signedResult neg r =
     (if MAX_VALUE < r then (if neg then NInf else PInf) else Fin (if neg then - r else r))"

definition roundDouble :: "rat \<Rightarrow> jsnum" where
  "roundDouble x = (if x = 0 then Fin 0 else signedResult (x < 0) (roundMagnitude \<bar>x\<bar>))"

fun js_add :: "jsnum \<Rightarrow> jsnum \<Rightarrow> jsnum" where
  "js_add NaN _ = NaN"
| "js_add _ NaN = NaN"
| "js_add PInf NInf = NaN"
| "js_add NInf PInf = NaN"
| "js_add PInf _ = PInf"
| "js_add _ PInf = PInf"
| "js_add NInf _ = NInf"
| "js_add _ NInf = NInf"
| "js_add (Fin a) (Fin b) = roundDouble (a + b)"

fun js_neg :: "jsnum \<Rightarrow> jsnum" where
  "js_neg NaN = NaN"
| "js_neg NInf = PInf"
| "js_neg PInf = NInf"
| "js_neg (Fin a) = Fin (- a)"

definition js_sub :: "jsnum \<Rightarrow> jsnum \<Rightarrow> jsnum" where
  "js_sub a b = js_add a (js_neg b)"

text \<open>The relational operators: every comparison with \<open>NaN\<close> is false.\<close>

fun js_lt :: "jsnum \<Rightarrow> jsnum \<Rightarrow> bool" where
  "js_lt NaN _ = False"
| "js_lt _ NaN = False"
| "js_lt _ NInf = False"
| "js_lt NInf _ = True"
| "js_lt PInf _ = False"
| "js_lt _ PInf = True"
| "js_lt (Fin a) (Fin b) = (a < b)"

definition js_le :: "jsnum \<Rightarrow> jsnum \<Rightarrow> bool" where
  "js_le a b = (a \<noteq> NaN \<and> b \<noteq> NaN \<and> (js_lt a b \<or> a = b))"

definition js_gt :: "jsnum \<Rightarrow> jsnum \<Rightarrow> bool" where
  "js_gt a b = js_lt b a"

definition js_ge :: "jsnum \<Rightarrow> jsnum \<Rightarrow> bool" where
  "js_ge a b = js_le b a"

text \<open>
  Multiplication and division. A zero divisor counts as positive zero; the dashboard
  divides only behind the test \<open>limit > 0\<close>.
\<close>

fun js_mul :: "jsnum \<Rightarrow> jsnum \<Rightarrow> jsnum" where
  "js_mul NaN _ = NaN"
| "js_mul _ NaN = NaN"
| "js_mul (Fin a) (Fin b) = roundDouble (a * b)"
| "js_mul (Fin a) PInf = (if a = 0 then NaN else if 0 < a then PInf else NInf)"
| "js_mul (Fin a) NInf = (if a = 0 then NaN else if 0 < a then NInf else PInf)"
| "js_mul PInf (Fin b) = (if b = 0 then NaN else if 0 < b then PInf else NInf)"
| "js_mul NInf (Fin b) = (if b = 0 then NaN else if 0 < b then NInf else PInf)"
| "js_mul PInf PInf = PInf"
| "js_mul NInf NInf = PInf"
| "js_mul PInf NInf = NInf"
| "js_mul NInf PInf = NInf"

fun js_div :: "jsnum \<Rightarrow> jsnum \<Rightarrow> jsnum" where
  "js_div NaN _ = NaN"
| "js_div _ NaN = NaN"
| "js_div (Fin a) (Fin b) =
     (if b = 0 then (if a = 0 then NaN else if 0 < a then PInf else NInf)
      else roundDouble (a / b))"
| "js_div (Fin a) PInf = Fin 0"
| "js_div (Fin a) NInf = Fin 0"
| "js_div PInf (Fin b) = (if 0 \<le> b then PInf else NInf)"
| "js_div NInf (Fin b) = (if 0 \<le> b then NInf else PInf)"
| "js_div PInf PInf = NaN"
| "js_div PInf NInf = NaN"
| "js_div NInf PInf = NaN"
| "js_div NInf NInf = NaN"

section \<open>parseFloat\<close>

text \<open>
  \<open>parseFloat\<close> skips leading white space and reads the longest prefix that is a decimal
  literal: an optional sign, then \<open>Infinity\<close>, or digits with an optional fraction and an
  optional exponent. The result is the binary64 value nearest to the decimal value of that
  prefix, and \<open>NaN\<close> when there is no such prefix. Strings are lists of 8-bit characters
  here.
\<close>

definition isStrWhiteSpaceChar :: "char \<Rightarrow> bool" where
  "isStrWhiteSpaceChar c =
     (c = CHR 0x09 \<or> c = CHR 0x0A \<or> c = CHR 0x0B \<or> c = CHR 0x0C \<or> c = CHR 0x0D
      \<or> c = CHR 0x20 \<or> c = CHR 0xA0)"

definition isDecimalDigit :: "char \<Rightarrow> bool" where
  "isDecimalDigit c = (c \<in> set ''0123456789'')"

definition digitValue :: "char \<Rightarrow> nat" where
  "digitValue c = of_char c - 48"

definition digitsValue :: "string \<Rightarrow> nat" where
  "digitsValue ds = foldl (\<lambda>n c. 10 * n + digitValue c) 0 ds"

definition parseSign :: "string \<Rightarrow> rat \<times> string" where
  "parseSign s =
     (case s of
        c # r \<Rightarrow> (if c = CHR ''+'' then (1, r) else if c = CHR ''-'' then (- 1, r) else (1, s))
      | [] \<Rightarrow> (1, s))"

definition parseExponent :: "string \<Rightarrow> int" where
  "parseExponent s =
     (case s of
        c # r \<Rightarrow>
          (if c = CHR ''e'' \<or> c = CHR ''E'' then
             (let (sg, r') = parseSign r; ds = takeWhile isDecimalDigit r'
              in if ds = [] then 0
                 else (if sg < 0 then - int (digitsValue ds) else int (digitsValue ds)))
           else 0)
      | [] \<Rightarrow> 0)"

definition scale10 :: "rat \<Rightarrow> int \<Rightarrow> rat" where
  "scale10 x e = (if 0 \<le> e then x * 10 ^ nat e else x / 10 ^ nat (- e))"

definition parseFloat :: "string \<Rightarrow> jsnum" where
  "parseFloat s =
     (let (sg, s2) = parseSign (dropWhile isStrWhiteSpaceChar s)
      in if take 8 s2 = ''Infinity'' then (if sg < 0 then NInf else PInf)
         else
           (let ip = takeWhile isDecimalDigit s2;
                r1 = dropWhile isDecimalDigit s2;
                (fp, r2) =
                  (case r1 of
                     c # r \<Rightarrow>
                       (if c = CHR ''.''
                        then (takeWhile isDecimalDigit r, dropWhile isDecimalDigit r)
                        else ([], r1))
                   | [] \<Rightarrow> ([], r1))
            in if ip = [] \<and> fp = [] then NaN
               else roundDouble (sg * scale10
                      (of_nat (digitsValue ip) + of_nat (digitsValue fp) / 10 ^ length fp)
                      (parseExponent r2))))"

section \<open>Transactions and the totals of the dashboard\<close>

datatype TransactionType = Income | Expense

record Transaction =
  tx_id :: int
  tx_type :: TransactionType
  amount :: string
  category :: string
  description :: string
  date :: string
  created_at :: string
  updated_at :: string

text \<open>
  \<^verbatim>\<open>transactions.filter(t => t.type === "income").reduce((s, t) => s + parseFloat(t.amount), 0)\<close>
\<close>

definition addAmounts :: "jsnum \<Rightarrow> Transaction list \<Rightarrow> jsnum" where
  "addAmounts s0 ts = foldl (\<lambda>s t. js_add s (parseFloat (amount t))) s0 ts"

definition sumAmounts :: "Transaction list \<Rightarrow> jsnum" where
  "sumAmounts ts = addAmounts (Fin 0) ts"

definition totalIncome :: "Transaction list \<Rightarrow> jsnum" where
  "totalIncome transactions = sumAmounts (filter (\<lambda>t. tx_type t = Income) transactions)"

definition totalExpense :: "Transaction list \<Rightarrow> jsnum" where
  "totalExpense transactions = sumAmounts (filter (\<lambda>t. tx_type t = Expense) transactions)"

definition net :: "Transaction list \<Rightarrow> jsnum" where
  "net transactions = js_sub (totalIncome transactions) (totalExpense transactions)"

section \<open>The milestone detector\<close>

text \<open>
  \<^verbatim>\<open>const SAVING_MILESTONES = [100, 250, 500, 1000, 2500, 5000, 10000];\<close>
\<close>

definition SAVING_MILESTONES :: "jsnum list" where
  "SAVING_MILESTONES = [Fin 100, Fin 250, Fin 500, Fin 1000, Fin 2500, Fin 5000, Fin 10000]"

text \<open>
  The state of the hook \<open>useMilestones\<close>: the two \<open>useState\<close> cells and the ref that
  holds the net balance of the previous run of the effect.
\<close>

record MilestoneState =
  celebrated :: "jsnum list"
  toastMilestone :: "jsnum option"
  prevNetRef :: jsnum

definition useMilestones_init :: "jsnum \<Rightarrow> MilestoneState" where
  "useMilestones_init n = \<lparr>celebrated = [], toastMilestone = None, prevNetRef = n\<rparr>"

text \<open>
  The \<open>for\<close> loop of the effect: the first milestone \<open>m\<close>, in the order of the list, with
  \<open>prevNet < m && net >= m && !celebrated.includes(m)\<close>.
\<close>

fun scanMilestones :: "jsnum list \<Rightarrow> jsnum \<Rightarrow> jsnum \<Rightarrow> jsnum list \<Rightarrow> jsnum option" where
  "scanMilestones [] prevNet n cel = None"
| "scanMilestones (m # ms) prevNet n cel =
     (if js_lt prevNet m \<and> js_ge n m \<and> m \<notin> set cel then Some m
      else scanMilestones ms prevNet n cel)"

text \<open>
  One run of the effect body. It returns the new state and the milestone it celebrates
  (toast and confetti), if any. The list of milestones is a parameter; the dashboard
  passes \<open>SAVING_MILESTONES\<close>.
\<close>

definition milestoneEffect ::
  "jsnum list \<Rightarrow> MilestoneState \<Rightarrow> jsnum \<Rightarrow> MilestoneState \<times> jsnum option" where
  "milestoneEffect ms st n =
     (let prevNet = prevNetRef st;
          st1 = st\<lparr>prevNetRef := n\<rparr>
      in if js_le n prevNet then (st1, None)
         else (case scanMilestones ms prevNet n (celebrated st) of
                 None \<Rightarrow> (st1, None)
               | Some m \<Rightarrow>
                   (st1\<lparr>celebrated := celebrated st @ [m], toastMilestone := Some m\<rparr>,
                    Some m)))"

definition emitted :: "jsnum option \<Rightarrow> jsnum list" where
  "emitted e = (case e of None \<Rightarrow> [] | Some m \<Rightarrow> [m])"

text \<open>
  One observation of a net balance. The effect has the dependencies
  \<open>[net, celebrated]\<close>: it runs for the render that carries the observation, and when
  that run has changed \<open>celebrated\<close> the next render runs it once more with the same
  \<open>net\<close>. The result is the state afterwards and the milestones celebrated during the
  observation, in order.
\<close>

definition observe ::
  "jsnum list \<Rightarrow> MilestoneState \<Rightarrow> jsnum \<Rightarrow> MilestoneState \<times> jsnum list" where
  "observe ms st n =
     (let (st1, e1) = milestoneEffect ms st n
      in if celebrated st1 \<noteq> celebrated st
         then (let (st2, e2) = milestoneEffect ms st1 n in (st2, emitted e1 @ emitted e2))
         else (st1, emitted e1))"

fun runObservations ::
  "jsnum list \<Rightarrow> MilestoneState \<Rightarrow> jsnum list \<Rightarrow> MilestoneState \<times> jsnum list list" where
  "runObservations ms st [] = (st, [])"
| "runObservations ms st (n # ns) =
     (let (st1, ev) = observe ms st n;
          (st2, evs) = runObservations ms st1 ns
      in (st2, ev # evs))"

text \<open>
  A session of the dashboard: the first render has \<open>transactions = []\<close>, so the hook is
  initialised with the net balance of the empty list and its effect runs once on mount;
  every fetched snapshot after that is one observation of its net balance.
\<close>

definition dashboardSession ::
  "jsnum list \<Rightarrow> Transaction list list \<Rightarrow> MilestoneState \<times> jsnum list list" where
  "dashboardSession ms snapshots =
     (let (st0, ev0) = observe ms (useMilestones_init (net [])) (net []);
          (st, evs) = runObservations ms st0 (map net snapshots)
      in (st, ev0 # evs))"

section \<open>Spending limits\<close>

text \<open>
  \<open>new Date(ms).toISOString().split("T")[0]\<close>: the UTC calendar date of a time value in
  milliseconds, as \<open>YYYY-MM-DD\<close> (a sign and six digits for years outside 0..9999).
  \<open>toISOString\<close> throws a RangeError outside the range of time values; that is \<open>None\<close>.
\<close>

definition msPerDay :: int where
  "msPerDay = 86400000"

definition civilFromDays :: "int \<Rightarrow> int \<times> int \<times> int" where
  "civilFromDays z0 =
     (let z = z0 + 719468;
          era = z div 146097;
          doe = z - era * 146097;
          yoe = (doe - doe div 1460 + doe div 36524 - doe div 146096) div 365;
          doy = doe - (365 * yoe + yoe div 4 - yoe div 100);
          mp = (5 * doy + 2) div 153;
          d = doy - (153 * mp + 2) div 5 + 1;
          m = (if mp < 10 then mp + 3 else mp - 9);
          y = yoe + era * 400 + (if m \<le> 2 then 1 else 0)
      in (y, m, d))"

definition digitChar :: "int \<Rightarrow> char" where
  "digitChar n = ''0123456789'' ! nat (n mod 10)"

definition pad2 :: "int \<Rightarrow> string" where
  "pad2 n = [digitChar (n div 10), digitChar n]"

definition pad4 :: "int \<Rightarrow> string" where
  "pad4 n = [digitChar (n div 1000), digitChar (n div 100), digitChar (n div 10), digitChar n]"

definition pad6 :: "int \<Rightarrow> string" where
  "pad6 n = [digitChar (n div 100000), digitChar (n div 10000)] @ pad4 n"

definition yearString :: "int \<Rightarrow> string" where
  "yearString y =
     (if 0 \<le> y \<and> y \<le> 9999 then pad4 y
      else if y < 0 then CHR ''-'' # pad6 (- y) else CHR ''+'' # pad6 y)"

definition isoDateOfDay :: "int \<Rightarrow> string" where
  "isoDateOfDay dayNo =
     (let (y, m, d) = civilFromDays dayNo
      in yearString y @ ''-'' @ pad2 m @ ''-'' @ pad2 d)"

definition validTime :: "int \<Rightarrow> bool" where
  "validTime ms = (- 8640000000000000 \<le> ms \<and> ms \<le> 8640000000000000)"

definition toISODate :: "int \<Rightarrow> string option" where
  "toISODate ms = (if validTime ms then Some (isoDateOfDay (ms div msPerDay)) else None)"

record Spending =
  dailySpend :: jsnum
  weeklySpend :: jsnum

text \<open>
  The part of \<open>useSpendingLimits\<close> that computes the two sums, with the clock as the
  parameter \<open>now\<close> (milliseconds since the epoch, read by \<open>new Date()\<close> and
  \<open>Date.now()\<close> in the same render). Dates are compared as strings, as \<open>===\<close> and
  \<open>>=\<close> do.
\<close>

definition useSpendingLimits :: "int \<Rightarrow> Transaction list \<Rightarrow> Spending option" where
  "useSpendingLimits now transactions =
     (case toISODate now of
        None \<Rightarrow> None
      | Some today \<Rightarrow>
          (case toISODate (now - 7 * 86400000) of
             None \<Rightarrow> None
           | Some weekAgo \<Rightarrow>
               Some \<lparr>dailySpend =
                       sumAmounts (filter (\<lambda>t. tx_type t = Expense \<and> date t = today)
                                     transactions),
                     weeklySpend =
                       sumAmounts (filter (\<lambda>t. tx_type t = Expense \<and> weekAgo \<le> date t)
                                     transactions)\<rparr>))"

text \<open>
  The window of the weekly sum as the specification words it: today and the six days
  before it, and nothing after today.
\<close>

definition weeklySpend_spec :: "int \<Rightarrow> Transaction list \<Rightarrow> jsnum" where
  "weeklySpend_spec now transactions =
     sumAmounts (filter (\<lambda>t. tx_type t = Expense
                           \<and> isoDateOfDay (now div msPerDay - 6) \<le> date t
                           \<and> date t \<le> isoDateOfDay (now div msPerDay))
                   transactions)"

text \<open>
  \<^verbatim>\<open>const dailyPct = limits.daily > 0 ? (dailySpend / limits.daily) * 100 : 0;\<close>
\<close>

definition pct :: "jsnum \<Rightarrow> jsnum \<Rightarrow> jsnum" where
  "pct spend limit =
     (if js_gt limit (Fin 0) then js_mul (js_div spend limit) (Fin 100) else Fin 0)"

text \<open>
  What \<open>LimitBanner\<close> renders: nothing, or a banner with the two flags \<open>over\<close> and
  \<open>warning\<close> that choose its wording and style.
\<close>

datatype Banner = NoBanner | Banner (over: bool) (warning: bool)

definition LimitBanner :: "jsnum \<Rightarrow> jsnum \<Rightarrow> jsnum \<Rightarrow> bool \<Rightarrow> Banner" where
  "LimitBanner spent limit p dismissed =
     (if js_le limit (Fin 0) \<or> js_lt p (Fin 80) \<or> dismissed then NoBanner
      else Banner (js_ge p (Fin 100)) (js_ge p (Fin 80) \<and> js_lt p (Fin 100)))"

section \<open>The charts\<close>

text \<open>
  A JavaScript \<open>Map\<close> keeps its keys in insertion order: it is an association list in
  which \<open>set\<close> replaces the value of a key that is present, in place, and appends a new
  key at the end; \<open>get\<close> and \<open>has\<close> are \<open>map_of\<close>.
\<close>

fun jsMapSet :: "'k \<Rightarrow> 'v \<Rightarrow> ('k \<times> 'v) list \<Rightarrow> ('k \<times> 'v) list" where
  "jsMapSet k v [] = [(k, v)]"
| "jsMapSet k v (p # ps) = (if fst p = k then (k, v) # ps else p # jsMapSet k v ps)"

record AreaValue =
  income :: jsnum
  expense :: jsnum

text \<open>
  The body of the \<open>forEach\<close> in \<open>buildAreaData\<close>. The entry \<open>e\<close> is updated in place,
  which leaves its position in the map as it is.
\<close>

definition areaStep :: "(string \<times> AreaValue) list \<Rightarrow> Transaction \<Rightarrow> (string \<times> AreaValue) list" where
  "areaStep m t =
     (let m1 = (if map_of m (date t) = None
                then jsMapSet (date t) \<lparr>income = Fin 0, expense = Fin 0\<rparr> m else m)
      in case map_of m1 (date t) of
           None \<Rightarrow> m1
         | Some e \<Rightarrow>
             jsMapSet (date t)
               (if tx_type t = Income
                then e\<lparr>income := js_add (income e) (parseFloat (amount t))\<rparr>
                else e\<lparr>expense := js_add (expense e) (parseFloat (amount t))\<rparr>) m1)"

text \<open>
  \<open>Array.prototype.sort\<close> with a comparator, as a stable insertion sort. The argument
  \<open>after a b\<close> says that the comparator is positive on \<open>(a, b)\<close>, so that \<open>a\<close> belongs
  behind \<open>b\<close>; on a zero, a negative or a \<open>NaN\<close> comparator the two keep their order.
  (For a comparator that is not consistent the order an engine produces is its own; the
  elements are the same.)
\<close>

fun insertBy :: "('a \<Rightarrow> 'a \<Rightarrow> bool) \<Rightarrow> 'a \<Rightarrow> 'a list \<Rightarrow> 'a list" where
  "insertBy after a [] = [a]"
| "insertBy after a (b # bs) = (if after a b then b # insertBy after a bs else a # b # bs)"

definition sortBy :: "('a \<Rightarrow> 'a \<Rightarrow> bool) \<Rightarrow> 'a list \<Rightarrow> 'a list" where
  "sortBy after xs = foldr (insertBy after) xs []"

text \<open>
  The map that \<open>buildAreaData\<close> has built when the loop ends. The transactions are sorted
  with the comparator \<open>a.date.localeCompare(b.date)\<close>; the collation of the browser is the
  parameter \<open>localeCompare\<close>.
\<close>

definition areaMap ::
  "(string \<Rightarrow> string \<Rightarrow> int) \<Rightarrow> Transaction list \<Rightarrow> (string \<times> AreaValue) list" where
  "areaMap localeCompare transactions =
     foldl areaStep [] (sortBy (\<lambda>a b. 0 < localeCompare (date a) (date b)) transactions)"

text \<open>
  What is known of \<open>localeCompare\<close>: on two dates of the shape \<open>YYYY-MM-DD\<close> it is
  positive exactly when the first is the greater string, digit by digit.
\<close>

definition isISODate :: "string \<Rightarrow> bool" where
  "isISODate s =
     (length s = 10 \<and> s ! 4 = CHR ''-'' \<and> s ! 7 = CHR ''-''
      \<and> list_all isDecimalDigit (take 4 s) \<and> list_all isDecimalDigit (take 2 (drop 5 s))
      \<and> list_all isDecimalDigit (drop 8 s))"

definition ordersISODates :: "(string \<Rightarrow> string \<Rightarrow> int) \<Rightarrow> bool" where
  "ordersISODates localeCompare =
     (\<forall>a b. isISODate a \<and> isISODate b \<longrightarrow> (0 < localeCompare a b) = (b < a))"

text \<open>A collation that compares character by character; it orders the dates as required.\<close>

definition compareByCode :: "string \<Rightarrow> string \<Rightarrow> int" where
  "compareByCode a b = (if a < b then - 1 else if a = b then 0 else 1)"

record AreaDatum =
  datum_date :: string
  datum_income :: jsnum
  datum_expense :: jsnum

text \<open>
  \<open>fmtShort\<close> formats a date with the \<open>Intl\<close> service of the browser, in its local time
  zone; it is a parameter of the model.
\<close>

definition buildAreaData ::
  "(string \<Rightarrow> string \<Rightarrow> int) \<Rightarrow> (string \<Rightarrow> string) \<Rightarrow> Transaction list \<Rightarrow> AreaDatum list" where
  "buildAreaData localeCompare fmtShort transactions =
     map (\<lambda>(d, v). \<lparr>datum_date = fmtShort d, datum_income = income v,
                     datum_expense = expense v\<rparr>)
       (areaMap localeCompare transactions)"

text \<open>
  \<open>fmtShort\<close> in a browser whose time zone is UTC, on the calendar dates \<open>YYYY-MM-DD\<close>:
  the short English month name and the day of the month (\<open>"2024-03-15"\<close> gives
  \<open>"Mar 15"\<close>).
\<close>

definition monthShort :: "string \<Rightarrow> string option" where
  "monthShort mm =
     map_of [(''01'', ''Jan''), (''02'', ''Feb''), (''03'', ''Mar''), (''04'', ''Apr''),
             (''05'', ''May''), (''06'', ''Jun''), (''07'', ''Jul''), (''08'', ''Aug''),
             (''09'', ''Sep''), (''10'', ''Oct''), (''11'', ''Nov''), (''12'', ''Dec'')] mm"

definition fmtShortUTC :: "string \<Rightarrow> string" where
  "fmtShortUTC d =
     (if length d = 10 \<and> d ! 4 = CHR ''-'' \<and> d ! 7 = CHR ''-''
         \<and> list_all isDecimalDigit (take 4 d) \<and> list_all isDecimalDigit (drop 8 d)
         \<and> 1 \<le> digitsValue (drop 8 d) \<and> digitsValue (drop 8 d) \<le> 31
      then (case monthShort (take 2 (drop 5 d)) of
              None \<Rightarrow> ''Invalid Date''
            | Some mn \<Rightarrow> mn @ '' '' @ (if d ! 8 = CHR ''0'' then drop 9 d else drop 8 d))
      else ''Invalid Date'')"

text \<open>
  \<open>buildPieData\<close>: the sums of the expenses by category, rounded to two decimals
  (\<open>parseFloat(value.toFixed(2))\<close>) and sorted by descending value.
\<close>

definition pieStep :: "(string \<times> jsnum) list \<Rightarrow> Transaction \<Rightarrow> (string \<times> jsnum) list" where
  "pieStep m t =
     jsMapSet (category t)
       (js_add (case map_of m (category t) of None \<Rightarrow> Fin 0 | Some v \<Rightarrow> v)
          (parseFloat (amount t))) m"

definition pieMap :: "Transaction list \<Rightarrow> (string \<times> jsnum) list" where
  "pieMap transactions = foldl pieStep [] (filter (\<lambda>t. tx_type t = Expense) transactions)"

text \<open>
  \<open>parseFloat(value.toFixed(2))\<close>. \<open>toFixed(2)\<close> writes \<open>NaN\<close> and the infinities as
  their names and a number of magnitude \<open>10^21\<close> or more in its shortest form, and
  \<open>parseFloat\<close> reads each of these back as it was. Any other number is written as the
  nearest multiple of \<open>1/100\<close>, a tie going away from zero, and \<open>parseFloat\<close> returns the
  binary64 value nearest to that.
\<close>

definition parseFloat_toFixed2 :: "jsnum \<Rightarrow> jsnum" where
  "parseFloat_toFixed2 v =
     (case v of
        Fin x \<Rightarrow>
          (if 10 ^ 21 \<le> \<bar>x\<bar> then Fin x
           else roundDouble (sgn x * of_int \<lfloor>\<bar>x\<bar> * 100 + 1 / 2\<rfloor> / 100))
      | _ \<Rightarrow> v)"

text \<open>The slices are sorted with the comparator \<open>(a, b) => b.value - a.value\<close>.\<close>

definition buildPieData :: "Transaction list \<Rightarrow> (string \<times> jsnum) list" where
  "buildPieData transactions =
     sortBy (\<lambda>a b. js_gt (js_sub (snd b) (snd a)) (Fin 0))
       (map (\<lambda>(name, v). (name, parseFloat_toFixed2 v)) (pieMap transactions))"

section \<open>The order of the categories\<close>

text \<open>The map \<open>grouped\<close> of \<open>CategoryView\<close>: the transactions of the active tab by category.\<close>

definition groupStep ::
  "(string \<times> Transaction list) list \<Rightarrow> Transaction \<Rightarrow> (string \<times> Transaction list) list" where
  "groupStep m t =
     (let m1 = (if map_of m (category t) = None then jsMapSet (category t) [] m else m)
      in case map_of m1 (category t) of
           None \<Rightarrow> m1
         | Some l \<Rightarrow> jsMapSet (category t) (l @ [t]) m1)"

definition grouped :: "Transaction list \<Rightarrow> TransactionType \<Rightarrow> (string \<times> Transaction list) list" where
  "grouped transactions activeTab =
     foldl groupStep [] (filter (\<lambda>t. tx_type t = activeTab) transactions)"

definition orderedCategories ::
  "(string \<times> Transaction list) list \<Rightarrow> string list \<Rightarrow> string list" where
  "orderedCategories g categoryOrder =
     (let fromData = map fst g;
          saved = filter (\<lambda>c. c \<in> set fromData) categoryOrder;
          newOnes = filter (\<lambda>c. c \<notin> set saved) fromData
      in saved @ newOnes)"

text \<open>\<open>Array.prototype.indexOf\<close>: the first position of an element, or \<open>-1\<close>.\<close>

definition indexOf :: "'a list \<Rightarrow> 'a \<Rightarrow> int" where
  "indexOf xs x = (if x \<in> set xs then int (length (takeWhile (\<lambda>y. y \<noteq> x) xs)) else - 1)"

text \<open>
  Modelled from the spec: \<open>arrayMove\<close> belongs to the library \<open>@dnd-kit/sortable\<close>, which
  is not part of the source. It removes the element at the source index and inserts it at
  the destination index, all other elements keeping their relative order. The model covers
  indices that are positions of the list; for any other it returns the list as it is.
\<close>

definition arrayMove :: "'a list \<Rightarrow> int \<Rightarrow> int \<Rightarrow> 'a list" where
  "arrayMove xs oldIndex newIndex =
     (if 0 \<le> oldIndex \<and> oldIndex < int (length xs)
         \<and> 0 \<le> newIndex \<and> newIndex < int (length xs)
      then (let others = take (nat oldIndex) xs @ drop (Suc (nat oldIndex)) xs
            in take (nat newIndex) others @ [xs ! nat oldIndex] @ drop (nat newIndex) others)
      else xs)"

text \<open>
  \<open>handleDragEnd\<close>: the saved order after a drag of the section \<open>activeId\<close> that ends
  over the section \<open>overId\<close> (or over nothing). The first argument is the displayed order.
\<close>

definition handleDragEnd ::
  "string list \<Rightarrow> string list \<Rightarrow> string \<Rightarrow> string option \<Rightarrow> string list" where
  "handleDragEnd displayed categoryOrder activeId overId =
     (case overId of
        None \<Rightarrow> categoryOrder
      | Some ov \<Rightarrow>
          if activeId = ov then categoryOrder
          else arrayMove displayed (indexOf displayed activeId) (indexOf displayed ov))"

section \<open>The filters and the session store\<close>

record FilterState =
  view :: string
  filterType :: string
  filterCategory :: string
  filterFrom :: string
  filterTo :: string

type_synonym storage = "string \<rightharpoonup> string"

text \<open>
  The state of the first render: each cell is read from the store, with its default when
  the key is absent (\<open>getItem(k) ?? d\<close>).
\<close>

definition getItemOr :: "storage \<Rightarrow> string \<Rightarrow> string \<Rightarrow> string" where
  "getItemOr store k d = (case store k of None \<Rightarrow> d | Some v \<Rightarrow> v)"

definition initialFilters :: "storage \<Rightarrow> FilterState" where
  "initialFilters store =
     \<lparr>view = getItemOr store ''clarity:view'' ''table'',
      filterType = getItemOr store ''clarity:filterType'' [],
      filterCategory = getItemOr store ''clarity:filterCategory'' [],
      filterFrom = getItemOr store ''clarity:filterFrom'' [],
      filterTo = getItemOr store ''clarity:filterTo'' []\<rparr>"

text \<open>
  The five effects that copy the cells to the store. On mount each of them runs; after a
  later render an effect runs when its dependency differs from the previous render.
\<close>

definition syncOnMount :: "FilterState \<Rightarrow> storage \<Rightarrow> storage" where
  "syncOnMount cur store =
     store(''clarity:view'' \<mapsto> view cur,
           ''clarity:filterType'' \<mapsto> filterType cur,
           ''clarity:filterCategory'' \<mapsto> filterCategory cur,
           ''clarity:filterFrom'' \<mapsto> filterFrom cur,
           ''clarity:filterTo'' \<mapsto> filterTo cur)"

definition syncEffect :: "string \<Rightarrow> string \<Rightarrow> string \<Rightarrow> storage \<Rightarrow> storage" where
  "syncEffect k old new store = (if new \<noteq> old then store(k \<mapsto> new) else store)"

definition syncEffects :: "FilterState \<Rightarrow> FilterState \<Rightarrow> storage \<Rightarrow> storage" where
  "syncEffects prev cur store =
     syncEffect ''clarity:filterTo'' (filterTo prev) (filterTo cur)
       (syncEffect ''clarity:filterFrom'' (filterFrom prev) (filterFrom cur)
         (syncEffect ''clarity:filterCategory'' (filterCategory prev) (filterCategory cur)
           (syncEffect ''clarity:filterType'' (filterType prev) (filterType cur)
             (syncEffect ''clarity:view'' (view prev) (view cur) store))))"

text \<open>
  The click handler of the button "Clear filters": four state updates, then four
  \<open>removeItem\<close>.
\<close>

definition clearClick :: "FilterState \<times> storage \<Rightarrow> FilterState \<times> storage" where
  "clearClick s =
     (case s of (st, store) \<Rightarrow>
        (st\<lparr>filterType := [], filterCategory := [], filterFrom := [], filterTo := []\<rparr>,
         store(''clarity:filterType'' := None, ''clarity:filterCategory'' := None,
               ''clarity:filterFrom'' := None, ''clarity:filterTo'' := None)))"

text \<open>
  Clearing the filters: the handler, then the render with the new state and its effects.
  The button is there only when a filter is set.
\<close>

definition clearButtonShown :: "FilterState \<Rightarrow> bool" where
  "clearButtonShown st =
     (filterType st \<noteq> [] \<or> filterCategory st \<noteq> [] \<or> filterFrom st \<noteq> [] \<or> filterTo st \<noteq> [])"

definition clearFilters :: "FilterState \<times> storage \<Rightarrow> FilterState \<times> storage" where
  "clearFilters s =
     (case clearClick s of (st', store') \<Rightarrow> (st', syncEffects (fst s) st' store'))"

section \<open>Rounding is exact on whole numbers\<close>

lemma roundHalfEven_of_int: "roundHalfEven (of_int z) = z"
  by (simp add: roundHalfEven_def roundHalfEvenAt_def)

lemma floorLog2_of_int:
  assumes "0 < z" "z < 2 ^ 53"
  shows "0 \<le> floorLog2 (of_int z)" "floorLog2 (of_int z) \<le> 52"
proof -
  from assms(1) have one: "(1::rat) \<le> of_int z" by simp
  then have f: "floorLog2 (of_int z) = bitlen z - 1" by (simp add: floorLog2_def)
  from assms(1) have "bitlen z \<noteq> 0" by (simp add: bitlen_eq_zero_iff)
  with bitlen_nonneg [of z] have "1 \<le> bitlen z" by linarith
  with f show "0 \<le> floorLog2 (of_int z)" by simp
  from assms(2) have "bitlen z \<le> 53"
    using bitlen_le_iff_power [of z 53] by simp
  with f show "floorLog2 (of_int z) \<le> 52" by simp
qed

lemma roundMagnitude_of_int:
  assumes "0 < z" "z < 2 ^ 53"
  shows "roundMagnitude (of_int z) = of_int z"
proof -
  define e where "e = floorLog2 (of_int z)"
  from floorLog2_of_int [OF assms] have e: "0 \<le> e" "e \<le> 52" by (simp_all add: e_def)
  define k where "k = nat (52 - e)"
  from e have q: "max (e - 52) (- 1074) = - int k" by (simp add: k_def)
  have p: "pow2 (- int k) = 1 / 2 ^ k" by (cases "k = 0") (simp_all add: pow2_def)
  have "of_int z / pow2 (- int k) = (of_int (z * 2 ^ k) :: rat)" by (simp add: p)
  then have "roundHalfEven (of_int z / pow2 (- int k)) = z * 2 ^ k"
    by (simp only: roundHalfEven_of_int)
  then have "roundAt (of_int z) (- int k) = of_int z"
    by (simp add: roundAt_def p)
  with q show ?thesis by (simp add: roundMagnitude_def e_def [symmetric])
qed

lemma MAX_VALUE_large: "(2::rat) ^ 53 \<le> MAX_VALUE"
  by (simp add: MAX_VALUE_def)

lemma roundDouble_of_int:
  assumes "\<bar>z\<bar> < 2 ^ 53"
  shows "roundDouble (of_int z) = Fin (of_int z)"
proof (cases "z = 0")
  case True
  then show ?thesis by (simp add: roundDouble_def)
next
  case False
  with assms have pos: "0 < \<bar>z\<bar>" by simp
  have m: "roundMagnitude \<bar>of_int z\<bar> = of_int \<bar>z\<bar>"
    using roundMagnitude_of_int [OF pos assms] by simp
  from assms have "(of_int \<bar>z\<bar> :: rat) < 2 ^ 53"
    by (metis of_int_less_numeral_power_cancel_iff)
  with MAX_VALUE_large have "\<not> MAX_VALUE < of_int \<bar>z\<bar>" by linarith
  with False m show ?thesis
    by (auto simp: roundDouble_def signedResult_def)
qed

lemma js_add_nat:
  "a + b < 2 ^ 53 \<Longrightarrow> js_add (Fin (of_nat a)) (Fin (of_nat b)) = Fin (of_nat (a + b))"
  using roundDouble_of_int [of "int (a + b)"] by (simp add: of_nat_less_numeral_power_cancel_iff)

lemma js_sub_nat:
  assumes "a < 2 ^ 53" "b < 2 ^ 53"
  shows "js_sub (Fin (of_nat a)) (Fin (of_nat b)) = Fin (of_int (int a - int b))"
proof -
  from assms have "\<bar>int a - int b\<bar> < 2 ^ 53" by auto
  from roundDouble_of_int [OF this] show ?thesis by (simp add: js_sub_def)
qed

text \<open>Values of \<open>parseFloat\<close> that the examples below use.\<close>

lemma parse_whole:
  "parseFloat ''5'' = Fin 5" "parseFloat ''7'' = Fin 7" "parseFloat ''30'' = Fin 30"
  "parseFloat ''50'' = Fin 50" "parseFloat ''100'' = Fin 100" "parseFloat ''200'' = Fin 200"
  "parseFloat ''600'' = Fin 600"
  by code_simp+

lemma parse_unreadable: "parseFloat ''abc'' = NaN" "parseFloat ''n/a'' = NaN"
  by code_simp+

lemma parse_prefix:
  "parseFloat ''12abc'' = Fin 12" "parseFloat ''1,000.50'' = Fin 1" "parseFloat ''50 USD'' = Fin 50"
  by code_simp+

lemma parse_tenths:
  "parseFloat ''0.10'' = Fin (3602879701896397 / 36028797018963968)"
  "parseFloat ''0.20'' = Fin (3602879701896397 / 18014398509481984)"
  "parseFloat ''0.30'' = Fin (5404319552844595 / 18014398509481984)"
  by code_simp+

section \<open>The totals\<close>

lemma addAmounts_Nil: "addAmounts a [] = a"
  by (simp add: addAmounts_def)

lemma addAmounts_Cons: "addAmounts a (t # ts) = addAmounts (js_add a (parseFloat (amount t))) ts"
  by (simp add: addAmounts_def)

lemma addAmounts_append: "addAmounts a (xs @ ys) = addAmounts (addAmounts a xs) ys"
  by (simp add: addAmounts_def)

lemma js_add_NaN_right: "js_add a NaN = NaN"
  by (cases a) simp_all

lemma addAmounts_NaN: "addAmounts NaN ts = NaN"
  by (induction ts) (simp_all add: addAmounts_Nil addAmounts_Cons)

lemma addAmounts_poisoned:
  "t \<in> set ts \<Longrightarrow> parseFloat (amount t) = NaN \<Longrightarrow> addAmounts a ts = NaN"
proof (induction ts arbitrary: a)
  case Nil
  then show ?case by simp
next
  case (Cons u ts)
  show ?case
  proof (cases "parseFloat (amount u) = NaN")
    case True
    then show ?thesis by (simp add: addAmounts_Cons js_add_NaN_right addAmounts_NaN)
  next
    case False
    with Cons.prems have "t \<in> set ts" by auto
    from Cons.IH [OF this Cons.prems(2)] show ?thesis by (simp add: addAmounts_Cons)
  qed
qed

lemma addAmounts_whole:
  "\<forall>t\<in>set ts. parseFloat (amount t) = Fin (of_nat (n t)) \<Longrightarrow>
   a + sum_list (map n ts) < 2 ^ 53 \<Longrightarrow>
   addAmounts (Fin (of_nat a)) ts = Fin (of_nat (a + sum_list (map n ts)))"
proof (induction ts arbitrary: a)
  case Nil
  show ?case by (simp add: addAmounts_Nil)
next
  case (Cons t ts)
  from Cons.prems(2) have "a + n t < 2 ^ 53" by simp
  then have "js_add (Fin (of_nat a)) (Fin (of_nat (n t))) = Fin (of_nat (a + n t))"
    by (rule js_add_nat)
  moreover from Cons.prems have "\<forall>t\<in>set ts. parseFloat (amount t) = Fin (of_nat (n t))"
    and "(a + n t) + sum_list (map n ts) < 2 ^ 53" by (simp_all add: add.assoc)
  ultimately show ?case
    using Cons.IH [of "a + n t"] Cons.prems(1) by (simp add: addAmounts_Cons add.assoc)
qed

lemma sum_filter_le: "sum_list (map n (filter P ts)) \<le> sum_list (map (n :: 'a \<Rightarrow> nat) ts)"
  by (induction ts) (auto intro: trans_le_add2)

lemma sumAmounts_whole:
  assumes "\<forall>t\<in>set ts. parseFloat (amount t) = Fin (of_nat (n t))"
    and "sum_list (map n ts) < 2 ^ 53"
  shows "sumAmounts (filter P ts) = Fin (of_nat (sum_list (map n (filter P ts))))"
proof -
  from sum_filter_le [of n P ts] assms(2) have "0 + sum_list (map n (filter P ts)) < 2 ^ 53" by simp
  moreover from assms(1) have "\<forall>t\<in>set (filter P ts). parseFloat (amount t) = Fin (of_nat (n t))"
    by simp
  ultimately show ?thesis
    using addAmounts_whole [of "filter P ts" n 0] by (simp add: sumAmounts_def)
qed

lemma totals_empty: "totalIncome [] = Fin 0 \<and> totalExpense [] = Fin 0 \<and> net [] = Fin 0"
  by (simp add: totalIncome_def totalExpense_def net_def sumAmounts_def addAmounts_Nil js_sub_def
      roundDouble_def)

lemma totals_snoc:
  "totalIncome (ts @ [tx]) =
     (if tx_type tx = Income then js_add (totalIncome ts) (parseFloat (amount tx))
      else totalIncome ts)
   \<and> totalExpense (ts @ [tx]) =
     (if tx_type tx = Expense then js_add (totalExpense ts) (parseFloat (amount tx))
      else totalExpense ts)"
  by (simp add: totalIncome_def totalExpense_def sumAmounts_def addAmounts_append addAmounts_Cons
      addAmounts_Nil)

lemma totals_whole:
  assumes "\<forall>t\<in>set ts. parseFloat (amount t) = Fin (of_nat (n t))"
    and "sum_list (map n ts) < 2 ^ 53"
  shows "totalIncome ts = Fin (of_nat (sum_list (map n (filter (\<lambda>t. tx_type t = Income) ts))))
   \<and> totalExpense ts = Fin (of_nat (sum_list (map n (filter (\<lambda>t. tx_type t = Expense) ts))))
   \<and> net ts = Fin (of_int (int (sum_list (map n (filter (\<lambda>t. tx_type t = Income) ts)))
                          - int (sum_list (map n (filter (\<lambda>t. tx_type t = Expense) ts)))))"
proof -
  let ?i = "sum_list (map n (filter (\<lambda>t. tx_type t = Income) ts))"
  let ?e = "sum_list (map n (filter (\<lambda>t. tx_type t = Expense) ts))"
  from sum_filter_le [of n "\<lambda>t. tx_type t = Income" ts]
    sum_filter_le [of n "\<lambda>t. tx_type t = Expense" ts] assms(2)
  have b: "?i < 2 ^ 53" "?e < 2 ^ 53" by simp_all
  have i: "totalIncome ts = Fin (of_nat ?i)"
    unfolding totalIncome_def by (rule sumAmounts_whole [OF assms])
  have e: "totalExpense ts = Fin (of_nat ?e)"
    unfolding totalExpense_def by (rule sumAmounts_whole [OF assms])
  from i e js_sub_nat [OF b] show ?thesis by (simp add: net_def)
qed

text \<open>
  C8: the income total adds the amounts of the income transactions and nothing else, the
  expense total those of the expense transactions, one after the other from 0 in the
  order of the list, each addition being an addition of numbers of the language; the net
  balance is their difference, and all three are 0 on the empty list. When the amounts
  are whole numbers with a sum below \<open>2^53\<close> no addition rounds and the totals are the
  exact sums: an expense of 50, an income of 200 and an expense of 30 give 200, 80 and 120.
\<close>

theorem totals_by_type:
  "totalIncome [] = Fin 0 \<and> totalExpense [] = Fin 0 \<and> net [] = Fin 0
   \<and> totalIncome (ts @ [tx]) =
       (if tx_type tx = Income then js_add (totalIncome ts) (parseFloat (amount tx))
        else totalIncome ts)
   \<and> totalExpense (ts @ [tx]) =
       (if tx_type tx = Expense then js_add (totalExpense ts) (parseFloat (amount tx))
        else totalExpense ts)
   \<and> net ts = js_sub (totalIncome ts) (totalExpense ts)
   \<and> ((\<forall>t\<in>set ts. parseFloat (amount t) = Fin (of_nat (n t))) \<and> sum_list (map n ts) < 2 ^ 53 \<longrightarrow>
        totalIncome ts = Fin (of_nat (sum_list (map n (filter (\<lambda>t. tx_type t = Income) ts))))
        \<and> totalExpense ts = Fin (of_nat (sum_list (map n (filter (\<lambda>t. tx_type t = Expense) ts))))
        \<and> net ts = Fin (of_int (int (sum_list (map n (filter (\<lambda>t. tx_type t = Income) ts)))
                               - int (sum_list (map n (filter (\<lambda>t. tx_type t = Expense) ts))))))"
  using totals_empty totals_snoc [of ts tx] totals_whole [of ts n] net_def [of ts]
  by blast

theorem totals_by_type_witness:
  "list_all (\<lambda>t. parseFloat (amount t) = Fin (of_nat (if tx_id t = 1 then 50 else if tx_id t = 2 then 200 else 30)))
       [\<lparr>tx_id = 1, tx_type = Expense, amount = ''50'', category = ''food'', description = [],
          date = ''2024-01-01'', created_at = [], updated_at = []\<rparr>,
         \<lparr>tx_id = 2, tx_type = Income, amount = ''200'', category = ''salary'', description = [],
          date = ''2024-01-01'', created_at = [], updated_at = []\<rparr>,
         \<lparr>tx_id = 3, tx_type = Expense, amount = ''30'', category = ''food'', description = [],
          date = ''2024-01-02'', created_at = [], updated_at = []\<rparr>]
   \<and> sum_list (map (\<lambda>t. if tx_id t = 1 then 50 else if tx_id t = 2 then 200 else 30) [\<lparr>tx_id = 1, tx_type = Expense, amount = ''50'', category = ''food'', description = [],
          date = ''2024-01-01'', created_at = [], updated_at = []\<rparr>,
         \<lparr>tx_id = 2, tx_type = Income, amount = ''200'', category = ''salary'', description = [],
          date = ''2024-01-01'', created_at = [], updated_at = []\<rparr>,
         \<lparr>tx_id = 3, tx_type = Expense, amount = ''30'', category = ''food'', description = [],
          date = ''2024-01-02'', created_at = [], updated_at = []\<rparr>])
       < (2::nat) ^ 53
   \<and> totalIncome [\<lparr>tx_id = 1, tx_type = Expense, amount = ''50'', category = ''food'', description = [],
          date = ''2024-01-01'', created_at = [], updated_at = []\<rparr>,
         \<lparr>tx_id = 2, tx_type = Income, amount = ''200'', category = ''salary'', description = [],
          date = ''2024-01-01'', created_at = [], updated_at = []\<rparr>,
         \<lparr>tx_id = 3, tx_type = Expense, amount = ''30'', category = ''food'', description = [],
          date = ''2024-01-02'', created_at = [], updated_at = []\<rparr>] = Fin 200
   \<and> totalExpense [\<lparr>tx_id = 1, tx_type = Expense, amount = ''50'', category = ''food'', description = [],
          date = ''2024-01-01'', created_at = [], updated_at = []\<rparr>,
         \<lparr>tx_id = 2, tx_type = Income, amount = ''200'', category = ''salary'', description = [],
          date = ''2024-01-01'', created_at = [], updated_at = []\<rparr>,
         \<lparr>tx_id = 3, tx_type = Expense, amount = ''30'', category = ''food'', description = [],
          date = ''2024-01-02'', created_at = [], updated_at = []\<rparr>] = Fin 80
   \<and> net [\<lparr>tx_id = 1, tx_type = Expense, amount = ''50'', category = ''food'', description = [],
          date = ''2024-01-01'', created_at = [], updated_at = []\<rparr>,
         \<lparr>tx_id = 2, tx_type = Income, amount = ''200'', category = ''salary'', description = [],
          date = ''2024-01-01'', created_at = [], updated_at = []\<rparr>,
         \<lparr>tx_id = 3, tx_type = Expense, amount = ''30'', category = ''food'', description = [],
          date = ''2024-01-02'', created_at = [], updated_at = []\<rparr>] = Fin 120"
  (is "?whole \<and> ?bound \<and> ?rest")
proof -
  have h: ?whole by (simp add: parse_whole)
  have b: ?bound by simp
  from totals_by_type
    [where ts = "[\<lparr>tx_id = 1, tx_type = Expense, amount = ''50'', category = ''food'', description = [],
          date = ''2024-01-01'', created_at = [], updated_at = []\<rparr>,
         \<lparr>tx_id = 2, tx_type = Income, amount = ''200'', category = ''salary'', description = [],
          date = ''2024-01-01'', created_at = [], updated_at = []\<rparr>,
         \<lparr>tx_id = 3, tx_type = Expense, amount = ''30'', category = ''food'', description = [],
          date = ''2024-01-02'', created_at = [], updated_at = []\<rparr>]"
       and n = "\<lambda>t. if tx_id t = 1 then 50 else if tx_id t = 2 then 200 else 30",
     THEN conjunct2, THEN conjunct2, THEN conjunct2, THEN conjunct2, THEN conjunct2,
     THEN conjunct2, THEN mp, OF conjI [OF h [unfolded list_all_iff] b]]
  have ?rest by simp
  with h b show ?thesis by blast
qed

section \<open>One observation of the milestone detector\<close>

lemma scan_find:
  "scanMilestones ms p n cel = List.find (\<lambda>m. js_lt p m \<and> js_ge n m \<and> m \<notin> set cel) ms"
  by (induction ms) simp_all

lemma js_lt_irrefl_le: "js_lt p m \<Longrightarrow> js_le m n \<Longrightarrow> \<not> js_le n p"
  by (cases p; cases m; cases n) (auto simp: js_le_def)

lemma scan_same: "scanMilestones ms n n cel = None"
proof (induction ms)
  case Nil show ?case by simp
next
  case (Cons m ms)
  have "\<not> (js_lt n m \<and> js_ge n m)"
    by (cases n; cases m) (auto simp: js_ge_def js_le_def)
  with Cons show ?case by auto
qed

lemma effect_again:
  "milestoneEffect ms st n = (st1, e) \<Longrightarrow> milestoneEffect ms st1 n = (st1, None)"
  by (auto simp: milestoneEffect_def Let_def scan_same split: if_splits option.splits)

lemma observe_effect:
  "observe ms st n = (fst (milestoneEffect ms st n), emitted (snd (milestoneEffect ms st n)))"
proof -
  obtain st1 e where eq: "milestoneEffect ms st n = (st1, e)" by (cases "milestoneEffect ms st n")
  from effect_again [OF eq] eq show ?thesis
    by (simp add: observe_def emitted_def)
qed

lemma observe_events:
  "snd (observe ms st n) =
     (case List.find (\<lambda>m. js_lt (prevNetRef st) m \<and> js_le m n \<and> m \<notin> set (celebrated st)) ms of
        None \<Rightarrow> [] | Some m \<Rightarrow> [m])"
proof (cases "js_le n (prevNetRef st)")
  case True
  have "List.find (\<lambda>m. js_lt (prevNetRef st) m \<and> js_le m n \<and> m \<notin> set (celebrated st)) ms = None"
    using True js_lt_irrefl_le by (auto simp: find_None_iff)
  with True show ?thesis
    by (simp add: observe_effect milestoneEffect_def emitted_def)
next
  case False
  then show ?thesis
    by (simp add: observe_effect milestoneEffect_def emitted_def scan_find js_ge_def Let_def
        split: option.splits)
qed

lemma observe_state:
  "celebrated (fst (observe ms st n)) = celebrated st @ snd (observe ms st n)
   \<and> prevNetRef (fst (observe ms st n)) = n"
  by (simp add: observe_effect milestoneEffect_def emitted_def Let_def split: option.splits)

lemma find_first_sorted:
  "sorted_wrt R xs \<Longrightarrow> List.find P xs = Some x \<Longrightarrow> y \<in> set xs \<Longrightarrow> P y \<Longrightarrow> x = y \<or> R x y"
  by (induction xs) (auto split: if_splits)

lemma find_Some_holds: "List.find P xs = Some x \<Longrightarrow> P x \<and> x \<in> set xs"
  by (induction xs) (auto split: if_splits)

lemma observe_fresh:
  "m \<in> set (snd (observe ms st n)) \<Longrightarrow>
     m \<in> set ms \<and> m \<notin> set (celebrated st) \<and> js_lt (prevNetRef st) m \<and> js_le m n"
proof -
  assume "m \<in> set (snd (observe ms st n))"
  then have "List.find (\<lambda>m. js_lt (prevNetRef st) m \<and> js_le m n \<and> m \<notin> set (celebrated st)) ms
             = Some m"
    by (simp add: observe_events split: option.splits)
  then show ?thesis
    using find_Some_holds [of "\<lambda>m. js_lt (prevNetRef st) m \<and> js_le m n \<and> m \<notin> set (celebrated st)" ms m]
    by simp
qed

lemma observe_length: "length (snd (observe ms st n)) \<le> 1"
  by (simp add: observe_events split: option.splits)

lemma observe_lowest:
  assumes "sorted_wrt js_lt ms" "m \<in> set (snd (observe ms st n))" "m' \<in> set ms"
    "js_lt (prevNetRef st) m'" "js_le m' n" "m' \<notin> set (celebrated st)"
  shows "js_le m m'"
proof -
  let ?P = "\<lambda>m. js_lt (prevNetRef st) m \<and> js_le m n \<and> m \<notin> set (celebrated st)"
  from assms(2) have f: "List.find ?P ms = Some m"
    by (auto simp: observe_events split: option.splits)
  from find_first_sorted [OF assms(1) f assms(3)] assms(4-6)
  have "m = m' \<or> js_lt m m'" by simp
  moreover from assms(4) have "m' \<noteq> NaN" by (cases "prevNetRef st"; cases m') simp_all
  moreover have "js_lt m m' \<Longrightarrow> m \<noteq> NaN" by (cases m; cases m') simp_all
  ultimately show ?thesis by (auto simp: js_le_def)
qed

lemma example_trace:
  "snd (runObservations [Fin 100, Fin 250, Fin 500] (useMilestones_init (Fin 0))
          [Fin 0, Fin 150, Fin 400, Fin 300, Fin 600])
   = [[], [Fin 100], [Fin 250], [], [Fin 500]]"
  by (simp add: observe_effect milestoneEffect_def emitted_def useMilestones_init_def
      js_le_def js_ge_def Let_def)

lemma run_celebrated:
  "celebrated (fst (runObservations ms st ns)) = celebrated st @ concat (snd (runObservations ms st ns))
   \<and> distinct (concat (snd (runObservations ms st ns)))
   \<and> set (concat (snd (runObservations ms st ns))) \<inter> set (celebrated st) = {}"
proof (induction ns arbitrary: st)
  case Nil
  show ?case by simp
next
  case (Cons n ns)
  obtain st1 ev where o: "observe ms st n = (st1, ev)" by (cases "observe ms st n")
  obtain st2 evs where r: "runObservations ms st1 ns = (st2, evs)"
    by (cases "runObservations ms st1 ns")
  from observe_state [of ms st n] o have c1: "celebrated st1 = celebrated st @ ev" by simp
  from observe_fresh [of _ ms st n] o have fresh: "set ev \<inter> set (celebrated st) = {}" by auto
  from observe_length [of ms st n] o have "distinct ev" by (cases ev) auto
  moreover from Cons.IH [of st1] r
  have "celebrated st2 = celebrated st1 @ concat evs" "distinct (concat evs)"
    "set (concat evs) \<inter> set (celebrated st1) = {}" by simp_all
  ultimately show ?case using o r c1 fresh by auto
qed


lemma trace_jump:
  "snd (runObservations SAVING_MILESTONES (useMilestones_init (Fin 0)) [Fin 0, Fin 300, Fin 400, Fin 600])
   = [[], [Fin 100], [], [Fin 500]]"
  by (simp add: observe_effect milestoneEffect_def emitted_def useMilestones_init_def
      SAVING_MILESTONES_def js_le_def js_ge_def Let_def)

text \<open>
  C1: one observation celebrates at most one milestone. It is the first milestone of the
  list that is not yet celebrated and lies in \<open>previousNet < m <= net\<close>, which on an
  ascending list is the lowest such milestone; it is appended to \<open>celebrated\<close>, and the
  previous net becomes the observed one. With the milestones 100, 250, 500 the
  observations 0, 150, 400, 300, 600 celebrate 100 at 150, 250 at 400 and 500 at 600; after
  the jump from 0 to 300 the observation 600 still celebrates 500, the milestone it crosses.
\<close>

theorem milestone_one_event_lowest:
  "length (snd (observe ms st n)) \<le> 1
   \<and> snd (observe ms st n) =
       (case List.find (\<lambda>m. js_lt (prevNetRef st) m \<and> js_le m n \<and> m \<notin> set (celebrated st)) ms of
          None \<Rightarrow> [] | Some m \<Rightarrow> [m])
   \<and> celebrated (fst (observe ms st n)) = celebrated st @ snd (observe ms st n)
   \<and> prevNetRef (fst (observe ms st n)) = n
   \<and> (sorted_wrt js_lt ms \<longrightarrow>
        (\<forall>m \<in> set (snd (observe ms st n)). \<forall>m' \<in> set ms.
           js_lt (prevNetRef st) m' \<and> js_le m' n \<and> m' \<notin> set (celebrated st) \<longrightarrow> js_le m m'))
   \<and> snd (runObservations [Fin 100, Fin 250, Fin 500] (useMilestones_init (Fin 0))
            [Fin 0, Fin 150, Fin 400, Fin 300, Fin 600])
       = [[], [Fin 100], [Fin 250], [], [Fin 500]]
   \<and> snd (runObservations SAVING_MILESTONES (useMilestones_init (Fin 0))
            [Fin 0, Fin 300, Fin 400, Fin 600])
       = [[], [Fin 100], [], [Fin 500]]"
  using observe_length [of ms st n] observe_events [of ms st n] observe_state [of ms st n]
    observe_lowest [of ms _ st n] example_trace trace_jump
  by blast

theorem milestone_one_event_lowest_witness:
  "sorted_wrt js_lt SAVING_MILESTONES
   \<and> snd (observe SAVING_MILESTONES (useMilestones_init (Fin 0)) (Fin 300)) = [Fin 100]
   \<and> Fin 250 \<in> set SAVING_MILESTONES
   \<and> js_lt (prevNetRef (useMilestones_init (Fin 0))) (Fin 250) \<and> js_le (Fin 250) (Fin 300)
   \<and> Fin 250 \<notin> set (celebrated (useMilestones_init (Fin 0)))
   \<and> js_le (Fin 100) (Fin 250)"
  using milestone_one_event_lowest [of SAVING_MILESTONES "useMilestones_init (Fin 0)" "Fin 300"]
  by (simp add: SAVING_MILESTONES_def useMilestones_init_def js_le_def)

lemma trace_dip:
  "snd (runObservations SAVING_MILESTONES (useMilestones_init (Fin 0))
          [Fin 150, Fin 50, Fin 150, Fin 50, Fin 300])
   = [[Fin 100], [], [], [], [Fin 250]]"
  by (simp add: observe_effect milestoneEffect_def emitted_def useMilestones_init_def
      SAVING_MILESTONES_def js_le_def js_ge_def Let_def)

text \<open>
  C5: over any sequence of observations, \<open>celebrated\<close> only grows, by exactly the
  milestones celebrated, no milestone is celebrated twice, and none that was already in
  \<open>celebrated\<close> is celebrated again; when the balance dips below 100 and rises above it
  again, 100 stays silent.
\<close>

theorem milestone_never_refires:
  "celebrated (fst (runObservations ms st ns))
     = celebrated st @ concat (snd (runObservations ms st ns))
   \<and> distinct (concat (snd (runObservations ms st ns)))
   \<and> set (concat (snd (runObservations ms st ns))) \<inter> set (celebrated st) = {}
   \<and> distinct (celebrated (fst (runObservations ms st ns))) = distinct (celebrated st)
   \<and> snd (runObservations SAVING_MILESTONES (useMilestones_init (Fin 0))
            [Fin 150, Fin 50, Fin 150, Fin 50, Fin 300])
       = [[Fin 100], [], [], [], [Fin 250]]"
  using run_celebrated [of ms st ns] trace_dip by auto

lemma no_event_without_increase:
  "js_le n (prevNetRef st) \<Longrightarrow> snd (observe ms st n) = []"
  by (simp add: observe_effect milestoneEffect_def emitted_def)

lemma roundDouble_numeral:
  "(numeral k :: int) < 2 ^ 53 \<Longrightarrow> roundDouble (numeral k) = Fin (numeral k)"
  using roundDouble_of_int [of "numeral k"] by simp

lemma net_600:
  "net [\<lparr>tx_id = 1, tx_type = Income, amount = ''600'', category = ''salary'',
         description = [], date = ''2024-03-15'', created_at = [], updated_at = []\<rparr>]
   = Fin 600"
  by (simp add: net_def totalIncome_def totalExpense_def sumAmounts_def addAmounts_def
      js_sub_def parse_whole roundDouble_numeral)

text \<open>
  C4: the dashboard mounts with the empty list, so the hook starts from a net balance of 0;
  a balance of 600 that is already there in the first fetched snapshot is observed as a
  rise from 0 and celebrates the milestone 100.
\<close>

theorem first_snapshot_fires:
  "snd (dashboardSession SAVING_MILESTONES
          [[\<lparr>tx_id = 1, tx_type = Income, amount = ''600'', category = ''salary'',
             description = [], date = ''2024-03-15'', created_at = [], updated_at = []\<rparr>]])
   = [[], [Fin 100]]"
  by (simp add: dashboardSession_def totals_empty net_600 observe_effect milestoneEffect_def
      emitted_def useMilestones_init_def SAVING_MILESTONES_def js_le_def js_ge_def Let_def)

section \<open>Clearing the filters\<close>

lemma clear_rewrites_empty:
  "filterType st \<noteq> [] \<Longrightarrow> snd (clearFilters (st, store)) ''clarity:filterType'' = Some []"
  by (simp add: clearFilters_def clearClick_def syncEffects_def syncEffect_def)

text \<open>
  The state in which the filters are cleared below is reached from an empty store by
  mounting the dashboard and choosing the type \<open>income\<close>.
\<close>

lemma income_filter_chosen:
  "syncEffects (initialFilters Map.empty) ((initialFilters Map.empty)\<lparr>filterType := ''income''\<rparr>)
     (syncOnMount (initialFilters Map.empty) Map.empty)
   = [''clarity:view'' \<mapsto> ''table'', ''clarity:filterType'' \<mapsto> ''income'',
      ''clarity:filterCategory'' \<mapsto> [], ''clarity:filterFrom'' \<mapsto> [],
      ''clarity:filterTo'' \<mapsto> []]
   \<and> (initialFilters Map.empty)\<lparr>filterType := ''income''\<rparr>
     = \<lparr>view = ''table'', filterType = ''income'', filterCategory = [], filterFrom = [],
        filterTo = []\<rparr>
   \<and> clearButtonShown ((initialFilters Map.empty)\<lparr>filterType := ''income''\<rparr>)"
  by (auto simp: initialFilters_def getItemOr_def syncOnMount_def syncEffects_def syncEffect_def
      clearButtonShown_def fun_eq_iff)

text \<open>
  C10: clearing the filters when the type filter is \<open>income\<close>: the four cells are empty
  afterwards and the handler has removed the four keys, but the effect of the type filter
  runs for the changed cell and stores the empty string under \<open>clarity:filterType\<close>.
\<close>

theorem clear_filters_leaves_empty_entry:
  "clearFilters
     (\<lparr>view = ''table'', filterType = ''income'', filterCategory = [], filterFrom = [],
       filterTo = []\<rparr>,
      [''clarity:view'' \<mapsto> ''table'', ''clarity:filterType'' \<mapsto> ''income'',
       ''clarity:filterCategory'' \<mapsto> [], ''clarity:filterFrom'' \<mapsto> [],
       ''clarity:filterTo'' \<mapsto> []])
   = (\<lparr>view = ''table'', filterType = [], filterCategory = [], filterFrom = [], filterTo = []\<rparr>,
      [''clarity:view'' \<mapsto> ''table'', ''clarity:filterType'' \<mapsto> []])"
  by (auto simp: clearFilters_def clearClick_def syncEffects_def syncEffect_def fun_eq_iff)

section \<open>The classification of a spending limit\<close>

lemma js_ge_not_lt: "js_ge p q \<Longrightarrow> \<not> js_lt p q"
  by (cases p; cases q) (auto simp: js_ge_def js_le_def)

lemma js_lt_not_ge: "js_lt p q \<Longrightarrow> \<not> js_ge p q"
  by (cases p; cases q) (auto simp: js_ge_def js_le_def)

lemma js_ge_100_80: "js_ge p (Fin 100) \<Longrightarrow> js_ge p (Fin 80)"
  by (cases p) (auto simp: js_ge_def js_le_def)

lemma pct_ge_80_limit: "js_ge (pct spend limit) (Fin 80) \<Longrightarrow> \<not> js_le limit (Fin 0)"
  by (cases limit) (auto simp: pct_def js_gt_def js_ge_def js_le_def split: if_splits)

text \<open>Percentages that the examples use; the quotient and the product are both rounded.\<close>

lemma pct_values:
  "pct (Fin 85) (Fin 100) = Fin 85" "pct (Fin 100) (Fin 100) = Fin 100"
  "pct (Fin 50) (Fin 100) = Fin 50" "pct (Fin 120) (Fin 100) = Fin 120"
  "pct (Fin 500) (Fin 0) = Fin 0"
  by code_simp+

text \<open>
  4.52 spent of a limit of 5.65 is 80 percent on paper; the rounded quotient times 100 is
  the number just below 80, and no banner is shown.
\<close>

lemma pct_rounds_below_80:
  "pct (parseFloat ''4.52'') (parseFloat ''5.65'') = Fin (5629499534213119 / 70368744177664)"
  "LimitBanner (parseFloat ''4.52'') (parseFloat ''5.65'')
     (pct (parseFloat ''4.52'') (parseFloat ''5.65'')) False = NoBanner"
  by code_simp+

text \<open>
  C6: with \<open>pct = spend / limit * 100\<close> for a positive limit and 0 otherwise, no banner is
  shown (ok) when \<open>pct < 80\<close>, the warning banner when \<open>80 <= pct < 100\<close> and the
  over-budget banner when \<open>pct >= 100\<close>; a limit of 0 shows no banner whatever was spent;
  a limit of 100 gives the warning at 85 and over-budget at 100.
\<close>

theorem limit_classification:
  "(js_lt (pct spend limit) (Fin 80) \<longrightarrow> LimitBanner spend limit (pct spend limit) False = NoBanner)
   \<and> (js_ge (pct spend limit) (Fin 80) \<and> js_lt (pct spend limit) (Fin 100) \<longrightarrow>
        LimitBanner spend limit (pct spend limit) False = Banner False True)
   \<and> (js_ge (pct spend limit) (Fin 100) \<longrightarrow>
        LimitBanner spend limit (pct spend limit) False = Banner True False)
   \<and> (js_gt limit (Fin 0) \<longrightarrow> pct spend limit = js_mul (js_div spend limit) (Fin 100))
   \<and> (limit = Fin 0 \<longrightarrow>
        pct spend limit = Fin 0 \<and> LimitBanner spend limit (pct spend limit) False = NoBanner)
   \<and> LimitBanner (Fin 85) (Fin 100) (pct (Fin 85) (Fin 100)) False = Banner False True
   \<and> LimitBanner (Fin 100) (Fin 100) (pct (Fin 100) (Fin 100)) False = Banner True False"
proof -
  have a: "js_lt (pct spend limit) (Fin 80) \<longrightarrow>
    LimitBanner spend limit (pct spend limit) False = NoBanner"
    by (simp add: LimitBanner_def)
  have b: "js_ge (pct spend limit) (Fin 80) \<and> js_lt (pct spend limit) (Fin 100) \<longrightarrow>
        LimitBanner spend limit (pct spend limit) False = Banner False True"
    using pct_ge_80_limit [of spend limit] js_ge_not_lt [of "pct spend limit" "Fin 80"]
      js_lt_not_ge [of "pct spend limit" "Fin 100"]
    by (auto simp: LimitBanner_def)
  have c: "js_ge (pct spend limit) (Fin 100) \<longrightarrow>
        LimitBanner spend limit (pct spend limit) False = Banner True False"
    using pct_ge_80_limit [of spend limit] js_ge_not_lt [of "pct spend limit" "Fin 80"]
      js_ge_not_lt [of "pct spend limit" "Fin 100"] js_ge_100_80 [of "pct spend limit"]
    by (auto simp: LimitBanner_def)
  have d: "js_gt limit (Fin 0) \<longrightarrow> pct spend limit = js_mul (js_div spend limit) (Fin 100)"
    by (simp add: pct_def)
  have e: "limit = Fin 0 \<longrightarrow>
        pct spend limit = Fin 0 \<and> LimitBanner spend limit (pct spend limit) False = NoBanner"
    by (simp add: pct_def LimitBanner_def js_gt_def js_le_def)
  have f: "LimitBanner (Fin 85) (Fin 100) (pct (Fin 85) (Fin 100)) False = Banner False True"
    by (simp add: pct_values LimitBanner_def js_ge_def js_le_def)
  have g: "LimitBanner (Fin 100) (Fin 100) (pct (Fin 100) (Fin 100)) False = Banner True False"
    by (simp add: pct_values LimitBanner_def js_ge_def js_le_def)
  from a b c d e f g show ?thesis by blast
qed

theorem limit_classification_witness:
  "js_gt (Fin 100) (Fin 0) \<and> pct (Fin 85) (Fin 100) = Fin 85
   \<and> js_ge (pct (Fin 85) (Fin 100)) (Fin 80) \<and> js_lt (pct (Fin 85) (Fin 100)) (Fin 100)
   \<and> LimitBanner (Fin 85) (Fin 100) (pct (Fin 85) (Fin 100)) False = Banner False True
   \<and> js_lt (pct (Fin 50) (Fin 100)) (Fin 80)
   \<and> LimitBanner (Fin 50) (Fin 100) (pct (Fin 50) (Fin 100)) False = NoBanner
   \<and> js_ge (pct (Fin 120) (Fin 100)) (Fin 100)
   \<and> LimitBanner (Fin 120) (Fin 100) (pct (Fin 120) (Fin 100)) False = Banner True False
   \<and> pct (Fin 500) (Fin 0) = Fin 0
   \<and> LimitBanner (Fin 500) (Fin 0) (pct (Fin 500) (Fin 0)) False = NoBanner"
  using limit_classification [of "Fin 85" "Fin 100", THEN conjunct2, THEN conjunct1]
    limit_classification [of "Fin 50" "Fin 100", THEN conjunct1]
    limit_classification [of "Fin 120" "Fin 100", THEN conjunct2, THEN conjunct2, THEN conjunct1]
    limit_classification [of "Fin 500" "Fin 0", THEN conjunct2, THEN conjunct2, THEN conjunct2,
      THEN conjunct2, THEN conjunct1]
  by (simp add: pct_values js_gt_def js_ge_def js_le_def)

section \<open>Merging the saved order with the data\<close>

lemma map_of_jsMapSet: "map_of (jsMapSet k v m) = (map_of m)(k \<mapsto> v)"
  by (induction m) (auto simp: fun_eq_iff)

lemma keys_jsMapSet:
  "map fst (jsMapSet k v m) = (if k \<in> fst ` set m then map fst m else map fst m @ [k])"
  by (induction m) auto

lemma dom_jsMapSet: "fst ` set (jsMapSet k v m) = insert k (fst ` set m)"
  by (induction m) auto

lemma keys_groupStep:
  "map fst (groupStep m t) =
     (if category t \<in> fst ` set m then map fst m else map fst m @ [category t])"
proof (cases "map_of m (category t)")
  case None
  then have "category t \<notin> fst ` set m" by (simp add: map_of_eq_None_iff)
  with None show ?thesis
    by (simp add: groupStep_def map_of_jsMapSet keys_jsMapSet dom_jsMapSet)
next
  case (Some l)
  then have "category t \<in> fst ` set m"
    using map_of_eq_None_iff [of m "category t"] by auto
  with Some show ?thesis
    by (simp add: groupStep_def keys_jsMapSet)
qed

lemma keys_grouped_fold:
  "map fst (foldl groupStep m ts) =
     foldl (\<lambda>ks c. if c \<in> set ks then ks else ks @ [c]) (map fst m) (map category ts)"
  by (induction ts arbitrary: m) (simp_all add: keys_groupStep)

lemma first_seen_order:
  "foldl (\<lambda>ks c. if c \<in> set ks then ks else ks @ [c]) [] cs = rev (remdups (rev cs))"
proof (induction cs rule: rev_induct)
  case Nil
  show ?case by simp
next
  case (snoc c cs)
  then show ?case by simp
qed

lemma keys_grouped:
  "map fst (grouped ts tab) = rev (remdups (rev (map category (filter (\<lambda>t. tx_type t = tab) ts))))"
  by (simp add: grouped_def keys_grouped_fold first_seen_order)

lemma ordered_formula:
  "orderedCategories g saved =
     filter (\<lambda>c. c \<in> set (map fst g)) saved @ filter (\<lambda>c. c \<notin> set saved) (map fst g)"
proof -
  have "filter (\<lambda>c. c \<notin> set (filter (\<lambda>c. c \<in> set (map fst g)) saved)) (map fst g)
        = filter (\<lambda>c. c \<notin> set saved) (map fst g)"
    by (rule filter_cong) auto
  then show ?thesis by (simp add: orderedCategories_def Let_def)
qed

lemma ordered_set: "set (orderedCategories g saved) = set (map fst g)"
  by (auto simp: ordered_formula)

lemma ordered_distinct:
  "distinct (map fst g) \<Longrightarrow> distinct saved \<Longrightarrow> distinct (orderedCategories g saved)"
  by (auto simp: ordered_formula)

lemma ordered_example:
  "orderedCategories
     (grouped
        [\<lparr>tx_id = 1, tx_type = Expense, amount = ''900'', category = ''rent'', description = [],
          date = ''2024-01-01'', created_at = [], updated_at = []\<rparr>,
         \<lparr>tx_id = 2, tx_type = Expense, amount = ''12.50'', category = ''food'', description = [],
          date = ''2024-01-02'', created_at = [], updated_at = []\<rparr>,
         \<lparr>tx_id = 3, tx_type = Expense, amount = ''40'', category = ''gift'', description = [],
          date = ''2024-01-03'', created_at = [], updated_at = []\<rparr>] Expense)
     [''food'', ''rent'']
   = [''food'', ''rent'', ''gift'']"
  by (simp add: keys_grouped ordered_formula)

lemma mset_arrayMove: "mset (arrayMove xs i j) = mset xs"
proof (cases "0 \<le> i \<and> i < int (length xs) \<and> 0 \<le> j \<and> j < int (length xs)")
  case True
  then have i: "nat i < length xs" by linarith
  let ?others = "take (nat i) xs @ drop (Suc (nat i)) xs"
  have "mset (take (nat j) ?others @ [xs ! nat i] @ drop (nat j) ?others)
        = mset (take (nat j) ?others @ drop (nat j) ?others) + {#xs ! nat i#}"
    by simp
  also have "\<dots> = mset ?others + {#xs ! nat i#}"
    by (simp only: append_take_drop_id)
  also have "\<dots> = mset (take (nat i) xs @ xs ! nat i # drop (Suc (nat i)) xs)"
    by simp
  also have "\<dots> = mset xs"
    using id_take_nth_drop [OF i] by simp
  finally show ?thesis using True by (simp add: arrayMove_def Let_def)
next
  case False
  then show ?thesis by (auto simp: arrayMove_def)
qed

lemma handleDragEnd_distinct:
  "distinct saved \<Longrightarrow> distinct displayed \<Longrightarrow>
     distinct (handleDragEnd displayed saved activeId overId)"
  using mset_eq_imp_distinct_iff [OF mset_arrayMove]
  by (auto simp: handleDragEnd_def split: option.splits)

lemma drag_example:
  "handleDragEnd
     (orderedCategories
        (grouped
          [\<lparr>tx_id = 1, tx_type = Expense, amount = ''900'', category = ''rent'', description = [],
            date = ''2024-01-01'', created_at = [], updated_at = []\<rparr>,
           \<lparr>tx_id = 2, tx_type = Expense, amount = ''12.50'', category = ''food'', description = [],
            date = ''2024-01-02'', created_at = [], updated_at = []\<rparr>,
           \<lparr>tx_id = 3, tx_type = Expense, amount = ''40'', category = ''gift'', description = [],
            date = ''2024-01-03'', created_at = [], updated_at = []\<rparr>] Expense)
        [''food'', ''rent''])
     [''food'', ''rent''] ''gift'' (Some ''food'')
   = [''gift'', ''food'', ''rent'']"
  by (simp add: keys_grouped ordered_formula handleDragEnd_def arrayMove_def indexOf_def)

text \<open>
  C9: the displayed order is the saved order restricted to the categories of the data,
  followed by the categories of the data that the saved order does not have, in the order
  of their first transaction; its entries are the categories of the data. The saved order
  is empty at first, and a drag stores a rearrangement of the displayed order, so it never
  repeats a category, and then each category of the data is displayed once. The saved
  order \<open>food, rent\<close> over data that show \<open>rent, food, gift\<close> gives \<open>food, rent, gift\<close>.
\<close>

theorem merge_saved_with_observed:
  "orderedCategories (grouped ts tab) saved =
     filter (\<lambda>c. c \<in> set (map fst (grouped ts tab))) saved
     @ filter (\<lambda>c. c \<notin> set saved) (map fst (grouped ts tab))
   \<and> map fst (grouped ts tab)
       = rev (remdups (rev (map category (filter (\<lambda>t. tx_type t = tab) ts))))
   \<and> set (orderedCategories (grouped ts tab) saved) = set (map fst (grouped ts tab))
   \<and> (distinct saved \<longrightarrow> distinct (orderedCategories (grouped ts tab) saved))
   \<and> (distinct saved
        \<and> activeId \<in> set (orderedCategories (grouped ts tab) saved)
        \<and> (\<forall>ov. overId = Some ov \<longrightarrow> ov \<in> set (orderedCategories (grouped ts tab) saved)) \<longrightarrow>
        distinct (handleDragEnd (orderedCategories (grouped ts tab) saved) saved activeId overId))
   \<and> orderedCategories
       (grouped
          [\<lparr>tx_id = 1, tx_type = Expense, amount = ''900'', category = ''rent'', description = [],
            date = ''2024-01-01'', created_at = [], updated_at = []\<rparr>,
           \<lparr>tx_id = 2, tx_type = Expense, amount = ''12.50'', category = ''food'', description = [],
            date = ''2024-01-02'', created_at = [], updated_at = []\<rparr>,
           \<lparr>tx_id = 3, tx_type = Expense, amount = ''40'', category = ''gift'', description = [],
            date = ''2024-01-03'', created_at = [], updated_at = []\<rparr>] Expense)
       [''food'', ''rent'']
     = [''food'', ''rent'', ''gift'']"
proof -
  have "distinct (map fst (grouped ts tab))" by (simp add: keys_grouped)
  then show ?thesis
    using ordered_formula [of "grouped ts tab" saved] keys_grouped [of ts tab]
      ordered_set [of "grouped ts tab" saved] ordered_distinct [of "grouped ts tab" saved]
      handleDragEnd_distinct [of saved "orderedCategories (grouped ts tab) saved" activeId overId]
      ordered_example
    by blast
qed

theorem merge_saved_with_observed_witness:
  "distinct [''food'', ''rent'']
   \<and> ''gift'' \<in> set (orderedCategories
       (grouped
          [\<lparr>tx_id = 1, tx_type = Expense, amount = ''900'', category = ''rent'', description = [],
            date = ''2024-01-01'', created_at = [], updated_at = []\<rparr>,
           \<lparr>tx_id = 2, tx_type = Expense, amount = ''12.50'', category = ''food'', description = [],
            date = ''2024-01-02'', created_at = [], updated_at = []\<rparr>,
           \<lparr>tx_id = 3, tx_type = Expense, amount = ''40'', category = ''gift'', description = [],
            date = ''2024-01-03'', created_at = [], updated_at = []\<rparr>] Expense)
       [''food'', ''rent''])
   \<and> ''food'' \<in> set (orderedCategories
       (grouped
          [\<lparr>tx_id = 1, tx_type = Expense, amount = ''900'', category = ''rent'', description = [],
            date = ''2024-01-01'', created_at = [], updated_at = []\<rparr>,
           \<lparr>tx_id = 2, tx_type = Expense, amount = ''12.50'', category = ''food'', description = [],
            date = ''2024-01-02'', created_at = [], updated_at = []\<rparr>,
           \<lparr>tx_id = 3, tx_type = Expense, amount = ''40'', category = ''gift'', description = [],
            date = ''2024-01-03'', created_at = [], updated_at = []\<rparr>] Expense)
       [''food'', ''rent''])
   \<and> distinct (orderedCategories
       (grouped
          [\<lparr>tx_id = 1, tx_type = Expense, amount = ''900'', category = ''rent'', description = [],
            date = ''2024-01-01'', created_at = [], updated_at = []\<rparr>,
           \<lparr>tx_id = 2, tx_type = Expense, amount = ''12.50'', category = ''food'', description = [],
            date = ''2024-01-02'', created_at = [], updated_at = []\<rparr>,
           \<lparr>tx_id = 3, tx_type = Expense, amount = ''40'', category = ''gift'', description = [],
            date = ''2024-01-03'', created_at = [], updated_at = []\<rparr>] Expense)
       [''food'', ''rent''])
   \<and> distinct (handleDragEnd
       (orderedCategories
          (grouped
            [\<lparr>tx_id = 1, tx_type = Expense, amount = ''900'', category = ''rent'', description = [],
            date = ''2024-01-01'', created_at = [], updated_at = []\<rparr>,
           \<lparr>tx_id = 2, tx_type = Expense, amount = ''12.50'', category = ''food'', description = [],
            date = ''2024-01-02'', created_at = [], updated_at = []\<rparr>,
           \<lparr>tx_id = 3, tx_type = Expense, amount = ''40'', category = ''gift'', description = [],
            date = ''2024-01-03'', created_at = [], updated_at = []\<rparr>] Expense)
          [''food'', ''rent''])
       [''food'', ''rent''] ''gift'' (Some ''food''))"
  (is "?d \<and> ?g \<and> ?f \<and> ?dd \<and> ?dh")
proof -
  have d: ?d by simp
  have g: ?g by (simp add: ordered_example)
  have f: ?f by (simp add: ordered_example)
  note T = merge_saved_with_observed
    [of "[\<lparr>tx_id = 1, tx_type = Expense, amount = ''900'', category = ''rent'', description = [],
            date = ''2024-01-01'', created_at = [], updated_at = []\<rparr>,
           \<lparr>tx_id = 2, tx_type = Expense, amount = ''12.50'', category = ''food'', description = [],
            date = ''2024-01-02'', created_at = [], updated_at = []\<rparr>,
           \<lparr>tx_id = 3, tx_type = Expense, amount = ''40'', category = ''gift'', description = [],
            date = ''2024-01-03'', created_at = [], updated_at = []\<rparr>]" Expense "[''food'', ''rent'']" "''gift''" "Some ''food''"]
  from T d have dd: ?dd by blast
  from f have "\<forall>ov. Some ''food'' = Some ov \<longrightarrow> ov \<in> set (orderedCategories
       (grouped
          [\<lparr>tx_id = 1, tx_type = Expense, amount = ''900'', category = ''rent'', description = [],
            date = ''2024-01-01'', created_at = [], updated_at = []\<rparr>,
           \<lparr>tx_id = 2, tx_type = Expense, amount = ''12.50'', category = ''food'', description = [],
            date = ''2024-01-02'', created_at = [], updated_at = []\<rparr>,
           \<lparr>tx_id = 3, tx_type = Expense, amount = ''40'', category = ''gift'', description = [],
            date = ''2024-01-03'', created_at = [], updated_at = []\<rparr>] Expense)
       [''food'', ''rent''])"
    by simp
  with T d g have dh: ?dh by blast
  from d g f dd dh show ?thesis by blast
qed

section \<open>The window of the weekly sum\<close>

lemma weekAgo_day: "(now - 604800000) div msPerDay = now div msPerDay - 7"
  by (simp add: msPerDay_def)

text \<open>
  C2: the weekly sum adds, in the order of the list, the amounts of the expenses whose
  date is, as a string, at or after the UTC date seven days before today; today and the
  seven days before it fall in this window, and so does every later date.
\<close>

theorem weekly_window:
  "validTime now \<Longrightarrow> validTime (now - 7 * 86400000) \<Longrightarrow>
     map_option weeklySpend (useSpendingLimits now ts)
     = Some (sumAmounts
               (filter (\<lambda>t. tx_type t = Expense \<and> isoDateOfDay (now div msPerDay - 7) \<le> date t) ts))"
  by (simp add: useSpendingLimits_def toISODate_def weekAgo_day)

lemma iso_19725: "isoDateOfDay 19725 = ''2024-01-03''"
  by code_simp
lemma iso_19726: "isoDateOfDay 19726 = ''2024-01-04''"
  by code_simp
lemma iso_19732: "isoDateOfDay 19732 = ''2024-01-10''"
  by code_simp

theorem weekly_window_witness:
  "validTime 1704888000000 \<and> validTime (1704888000000 - 7 * 86400000)
   \<and> map_option weeklySpend
        (useSpendingLimits 1704888000000
           [\<lparr>tx_id = 1, tx_type = Expense, amount = ''5'', category = ''food'', description = [],
             date = ''2024-01-03'', created_at = [], updated_at = []\<rparr>,
            \<lparr>tx_id = 2, tx_type = Expense, amount = ''9'', category = ''food'', description = [],
             date = ''2024-01-02'', created_at = [], updated_at = []\<rparr>,
            \<lparr>tx_id = 3, tx_type = Income, amount = ''100'', category = ''salary'', description = [],
             date = ''2024-01-10'', created_at = [], updated_at = []\<rparr>,
            \<lparr>tx_id = 4, tx_type = Expense, amount = ''7'', category = ''gift'', description = [],
             date = ''2024-02-01'', created_at = [], updated_at = []\<rparr>])
      = Some (Fin 12)"
  using weekly_window [of 1704888000000
           "[\<lparr>tx_id = 1, tx_type = Expense, amount = ''5'', category = ''food'', description = [],
             date = ''2024-01-03'', created_at = [], updated_at = []\<rparr>,
            \<lparr>tx_id = 2, tx_type = Expense, amount = ''9'', category = ''food'', description = [],
             date = ''2024-01-02'', created_at = [], updated_at = []\<rparr>,
            \<lparr>tx_id = 3, tx_type = Income, amount = ''100'', category = ''salary'', description = [],
             date = ''2024-01-10'', created_at = [], updated_at = []\<rparr>,
            \<lparr>tx_id = 4, tx_type = Expense, amount = ''7'', category = ''gift'', description = [],
             date = ''2024-02-01'', created_at = [], updated_at = []\<rparr>]"]
  by (simp add: validTime_def msPerDay_def iso_19725 sumAmounts_def addAmounts_def parse_whole
      roundDouble_numeral)

text \<open>
  On 2024-01-10 an expense of 2024-01-03 (seven days back) and one of 2024-02-01 (in the
  future) are both counted, and both lie outside the window 2024-01-04 .. 2024-01-10.
\<close>

theorem weekly_window_counterexample:
  "map_option weeklySpend
     (useSpendingLimits 1704888000000
        [\<lparr>tx_id = 1, tx_type = Expense, amount = ''5'', category = ''food'', description = [],
          date = ''2024-01-03'', created_at = [], updated_at = []\<rparr>,
         \<lparr>tx_id = 2, tx_type = Expense, amount = ''7'', category = ''gift'', description = [],
          date = ''2024-02-01'', created_at = [], updated_at = []\<rparr>])
     = Some (Fin 12)
   \<and> weeklySpend_spec 1704888000000
        [\<lparr>tx_id = 1, tx_type = Expense, amount = ''5'', category = ''food'', description = [],
          date = ''2024-01-03'', created_at = [], updated_at = []\<rparr>,
         \<lparr>tx_id = 2, tx_type = Expense, amount = ''7'', category = ''gift'', description = [],
          date = ''2024-02-01'', created_at = [], updated_at = []\<rparr>]
     = Fin 0"
  by (simp add: useSpendingLimits_def weeklySpend_spec_def toISODate_def validTime_def
      msPerDay_def iso_19725 iso_19726 iso_19732 sumAmounts_def addAmounts_def parse_whole
      roundDouble_numeral)

section \<open>The series: order of the entries and sums\<close>

lemma map_of_areaStep:
  "map_of (areaStep m t) =
     (map_of m)(date t \<mapsto>
        (let e = (case map_of m (date t) of
                    None \<Rightarrow> \<lparr>income = Fin 0, expense = Fin 0\<rparr> | Some e \<Rightarrow> e)
         in if tx_type t = Income then e\<lparr>income := js_add (income e) (parseFloat (amount t))\<rparr>
            else e\<lparr>expense := js_add (expense e) (parseFloat (amount t))\<rparr>))"
  by (cases "map_of m (date t)") (simp_all add: areaStep_def map_of_jsMapSet)

lemma keys_areaStep:
  "map fst (areaStep m t) =
     (if date t \<in> fst ` set m then map fst m else map fst m @ [date t])"
proof (cases "map_of m (date t)")
  case None
  then have "date t \<notin> fst ` set m" by (simp add: map_of_eq_None_iff)
  with None show ?thesis
    by (simp add: areaStep_def map_of_jsMapSet keys_jsMapSet dom_jsMapSet)
next
  case (Some e)
  then have "date t \<in> fst ` set m"
    using map_of_eq_None_iff [of m "date t"] by auto
  with Some show ?thesis
    by (simp add: areaStep_def keys_jsMapSet)
qed

lemma dom_areaStep: "fst ` set (areaStep m t) = insert (date t) (fst ` set m)"
proof -
  have "dom (map_of (areaStep m t)) = insert (date t) (dom (map_of m))"
    by (simp add: map_of_areaStep)
  then show ?thesis by (simp add: dom_map_of_conv_image_fst)
qed

lemma area_keys_set: "fst ` set (foldl areaStep m ts) = fst ` set m \<union> date ` set ts"
proof (induction ts arbitrary: m)
  case Nil
  show ?case by simp
next
  case (Cons t ts)
  from Cons.IH [of "areaStep m t"] show ?case by (simp add: dom_areaStep)
qed

lemma area_keys_sorted:
  "sorted (map date ts) \<Longrightarrow> sorted_wrt (<) (map fst m) \<Longrightarrow>
   (\<forall>k \<in> fst ` set m. \<forall>t \<in> set ts. k \<le> date t) \<Longrightarrow>
   sorted_wrt (<) (map fst (foldl areaStep m ts))"
proof (induction ts arbitrary: m)
  case Nil
  then show ?case by simp
next
  case (Cons t ts)
  have s: "sorted_wrt (<) (map fst (areaStep m t))"
  proof (cases "date t \<in> fst ` set m")
    case True
    with Cons.prems(2) show ?thesis by (simp add: keys_areaStep)
  next
    case False
    from Cons.prems(3) have "\<forall>k \<in> fst ` set m. k \<le> date t" by simp
    with False have "\<forall>k \<in> fst ` set m. k < date t"
      by (metis order_le_less)
    with False Cons.prems(2) show ?thesis
      by (simp add: keys_areaStep sorted_wrt_append)
  qed
  have b: "\<forall>k \<in> fst ` set (areaStep m t). \<forall>t' \<in> set ts. k \<le> date t'"
  proof (intro ballI)
    fix k t'
    assume k: "k \<in> fst ` set (areaStep m t)" and t': "t' \<in> set ts"
    from k have "k = date t \<or> k \<in> fst ` set m" by (simp add: dom_areaStep)
    then show "k \<le> date t'"
    proof
      assume "k = date t"
      with Cons.prems(1) t' show ?thesis by simp
    next
      assume "k \<in> fst ` set m"
      with Cons.prems(3) t' show ?thesis by auto
    qed
  qed
  from Cons.prems(1) have "sorted (map date ts)" by simp
  from Cons.IH [OF this s b] show ?case by simp
qed

text \<open>What the loop has accumulated under each date.\<close>

lemma area_lookup_fold:
  "map_of (foldl areaStep m ts) d =
     (case map_of m d of
        Some v \<Rightarrow>
          Some \<lparr>income = addAmounts (income v)
                           (filter (\<lambda>t. date t = d \<and> tx_type t = Income) ts),
                expense = addAmounts (expense v)
                           (filter (\<lambda>t. date t = d \<and> tx_type t = Expense) ts)\<rparr>
      | None \<Rightarrow>
          if d \<in> date ` set ts
          then Some \<lparr>income = addAmounts (Fin 0)
                                (filter (\<lambda>t. date t = d \<and> tx_type t = Income) ts),
                     expense = addAmounts (Fin 0)
                                (filter (\<lambda>t. date t = d \<and> tx_type t = Expense) ts)\<rparr>
          else None)"
proof (induction ts arbitrary: m)
  case Nil
  show ?case by (cases "map_of m d") (simp_all add: addAmounts_Nil)
next
  case (Cons t ts)
  show ?case
    unfolding foldl_Cons Cons.IH [of "areaStep m t"]
    by (cases "map_of m d"; cases "tx_type t"; cases "d = date t")
       (auto simp: map_of_areaStep addAmounts_Cons)
qed

text \<open>On dates of the one shape the sort of the series is the sort by date strings.\<close>

lemma set_insertBy: "set (insertBy after a bs) = insert a (set bs)"
  by (induction bs) auto

lemma set_sortBy: "set (sortBy after xs) = set xs"
  unfolding sortBy_def by (induction xs) (simp_all add: set_insertBy)

lemma insertBy_insort:
  assumes "ordersISODates lc" "isISODate (date x)" "\<forall>y\<in>set ys. isISODate (date y)"
  shows "insertBy (\<lambda>a b. 0 < lc (date a) (date b)) x ys = insort_key date x ys"
  using assms(3)
proof (induction ys)
  case Nil
  show ?case by simp
next
  case (Cons y ys)
  from assms(1,2) Cons.prems have "(0 < lc (date x) (date y)) = (date y < date x)"
    by (simp add: ordersISODates_def)
  with Cons show ?case by (auto simp: not_le)
qed

lemma sortBy_sort_key:
  assumes "ordersISODates lc" "\<forall>t\<in>set ts. isISODate (date t)"
  shows "sortBy (\<lambda>a b. 0 < lc (date a) (date b)) ts = sort_key date ts"
  using assms(2)
proof (induction ts)
  case Nil
  show ?case by (simp add: sortBy_def)
next
  case (Cons t ts)
  then have ih: "sortBy (\<lambda>a b. 0 < lc (date a) (date b)) ts = sort_key date ts" by simp
  from Cons.prems have "\<forall>y\<in>set (sort_key date ts). isISODate (date y)" by simp
  from insertBy_insort [OF assms(1) _ this, of t] Cons.prems ih
  show ?case by (simp add: sortBy_def sort_key_def)
qed

lemma filter_date_sorted:
  "filter (\<lambda>t. date t = d \<and> P t) (sort_key date ts) = filter (\<lambda>t. date t = d \<and> P t) ts"
proof -
  have "filter (\<lambda>t. date t = d \<and> P t) (sort_key date ts)
        = filter P (filter (\<lambda>t. date t = d) (sort_key date ts))"
    by (simp add: conj_commute)
  also have "\<dots> = filter P (filter (\<lambda>t. date t = d) ts)"
    by (simp only: sort_key_stable)
  also have "\<dots> = filter (\<lambda>t. date t = d \<and> P t) ts"
    by (simp add: conj_commute)
  finally show ?thesis .
qed

lemma areaMap_keys:
  assumes "ordersISODates lc" "\<forall>t\<in>set ts. isISODate (date t)"
  shows "map fst (areaMap lc ts) = sorted_list_of_set (date ` set ts)"
proof -
  have m: "areaMap lc ts = foldl areaStep [] (sort_key date ts)"
    by (simp add: areaMap_def sortBy_sort_key [OF assms])
  have "sorted_wrt (<) (map fst (areaMap lc ts))"
    unfolding m by (rule area_keys_sorted) simp_all
  then have "sorted (map fst (areaMap lc ts))" "distinct (map fst (areaMap lc ts))"
    by (simp_all add: strict_sorted_iff)
  moreover have "set (map fst (areaMap lc ts)) = date ` set ts"
    using area_keys_set [of "[]" "sort_key date ts"] by (simp add: m)
  ultimately show ?thesis
    by (metis sorted_list_of_set.idem_if_sorted_distinct)
qed

lemma area_lookup:
  assumes "ordersISODates lc" "\<forall>t\<in>set ts. isISODate (date t)"
  shows "map_of (areaMap lc ts) d =
     (if d \<in> date ` set ts
      then Some \<lparr>income = sumAmounts (filter (\<lambda>t. date t = d \<and> tx_type t = Income) ts),
                 expense = sumAmounts (filter (\<lambda>t. date t = d \<and> tx_type t = Expense) ts)\<rparr>
      else None)"
  by (simp add: areaMap_def sortBy_sort_key [OF assms] area_lookup_fold filter_date_sorted
      sumAmounts_def)

lemma assoc_rebuild:
  "distinct (map fst m) \<Longrightarrow> \<forall>k\<in>set (map fst m). map_of m k = Some (g k) \<Longrightarrow>
     m = map (\<lambda>k. (k, g k)) (map fst m)"
proof (induction m)
  case Nil
  show ?case by simp
next
  case (Cons p m)
  obtain k v where p: "p = (k, v)" by (cases p)
  from Cons.prems(1) p have nk: "k \<notin> set (map fst m)" and d: "distinct (map fst m)"
    by simp_all
  from Cons.prems(2) p have v: "v = g k" by simp
  have "\<forall>k'\<in>set (map fst m). map_of m k' = Some (g k')"
  proof
    fix k'
    assume k': "k' \<in> set (map fst m)"
    with nk have "k' \<noteq> k" by blast
    moreover from k' have "k' \<in> set (map fst (p # m))" by simp
    with Cons.prems(2) have "map_of (p # m) k' = Some (g k')" by (rule bspec)
    ultimately show "map_of m k' = Some (g k')" by (simp add: p)
  qed
  from Cons.IH [OF d this] have "m = map (\<lambda>k. (k, g k)) (map fst m)" .
  then have "p # m = (k, g k) # map (\<lambda>k. (k, g k)) (map fst m)" by (simp add: p v)
  then show ?case by (simp add: p)
qed

lemma areaMap_entries:
  assumes "ordersISODates lc" "\<forall>t\<in>set ts. isISODate (date t)"
  shows "areaMap lc ts =
     map (\<lambda>d. (d, \<lparr>income = sumAmounts (filter (\<lambda>t. date t = d \<and> tx_type t = Income) ts),
                    expense = sumAmounts (filter (\<lambda>t. date t = d \<and> tx_type t = Expense) ts)\<rparr>))
       (sorted_list_of_set (date ` set ts))"
proof -
  have k: "map fst (areaMap lc ts) = sorted_list_of_set (date ` set ts)"
    by (rule areaMap_keys [OF assms])
  then have d: "distinct (map fst (areaMap lc ts))" by simp
  have "\<forall>k\<in>set (map fst (areaMap lc ts)). map_of (areaMap lc ts) k =
      Some \<lparr>income = sumAmounts (filter (\<lambda>t. date t = k \<and> tx_type t = Income) ts),
            expense = sumAmounts (filter (\<lambda>t. date t = k \<and> tx_type t = Expense) ts)\<rparr>"
    unfolding k by (simp add: area_lookup [OF assms])
  from assoc_rebuild [OF d this] k show ?thesis by simp
qed

text \<open>Whole amounts: no addition rounds, and the sums can be regrouped by date.\<close>

lemma foldl_js_add_whole:
  "a + sum_list (map N ds) < 2 ^ 53 \<Longrightarrow>
     foldl js_add (Fin (of_nat a)) (map (\<lambda>d. Fin (of_nat (N d))) ds)
     = Fin (of_nat (a + sum_list (map N ds)))"
proof (induction ds arbitrary: a)
  case Nil
  show ?case by simp
next
  case (Cons d ds)
  from Cons.prems have "a + N d < 2 ^ 53" by simp
  then have "js_add (Fin (of_nat a)) (Fin (of_nat (N d))) = Fin (of_nat (a + N d))"
    by (rule js_add_nat)
  moreover from Cons.prems have "(a + N d) + sum_list (map N ds) < 2 ^ 53"
    by (simp add: add.assoc)
  ultimately show ?case using Cons.IH [of "a + N d"] by (simp add: add.assoc)
qed

lemma sum_unpicked:
  "x \<notin> set ds \<Longrightarrow>
     sum_list (map (\<lambda>d. if x = d then a + g d else g d) ds) = (sum_list (map g ds) :: nat)"
  by (induction ds) auto

lemma sum_pick:
  "distinct ds \<Longrightarrow> x \<in> set ds \<Longrightarrow>
     sum_list (map (\<lambda>d. if x = d then a + g d else g d) ds) = a + (sum_list (map g ds) :: nat)"
proof (induction ds)
  case Nil
  then show ?case by simp
next
  case (Cons d ds)
  show ?case
  proof (cases "x = d")
    case True
    with Cons.prems have "x \<notin> set ds" by simp
    from sum_unpicked [OF this, of a g] True show ?thesis by simp
  next
    case False
    with Cons show ?thesis by simp
  qed
qed

lemma sum_regroup:
  "distinct ds \<Longrightarrow> f ` set ts \<subseteq> set ds \<Longrightarrow>
     sum_list (map (\<lambda>d. sum_list (map n (filter (\<lambda>t. f t = d \<and> P t) ts))) ds)
     = (sum_list (map n (filter P ts)) :: nat)"
proof (induction ts)
  case Nil
  show ?case by (induction ds) simp_all
next
  case (Cons t ts)
  then have ih: "sum_list (map (\<lambda>d. sum_list (map n (filter (\<lambda>t. f t = d \<and> P t) ts))) ds)
     = sum_list (map n (filter P ts))" by simp
  show ?case
  proof (cases "P t")
    case False
    with ih show ?thesis by simp
  next
    case True
    let ?G = "\<lambda>d. sum_list (map n (filter (\<lambda>t. f t = d \<and> P t) ts))"
    have "(\<lambda>d. sum_list (map n (filter (\<lambda>t. f t = d \<and> P t) (t # ts))))
          = (\<lambda>d. if f t = d then n t + ?G d else ?G d)"
      using True by auto
    then have "sum_list (map (\<lambda>d. sum_list (map n (filter (\<lambda>t. f t = d \<and> P t) (t # ts)))) ds)
          = sum_list (map (\<lambda>d. if f t = d then n t + ?G d else ?G d) ds)"
      by (simp only:)
    also from Cons.prems have "\<dots> = n t + sum_list (map ?G ds)"
      by (intro sum_pick) simp_all
    also have "\<dots> = sum_list (map n (filter P (t # ts)))"
      using True by (simp add: ih)
    finally show ?thesis .
  qed
qed

lemma series_sum_whole:
  assumes whole: "\<forall>t\<in>set ts. parseFloat (amount t) = Fin (of_nat (n t))"
    and bound: "sum_list (map n ts) < 2 ^ 53"
  shows "foldl js_add (Fin 0)
           (map (\<lambda>d. sumAmounts (filter (\<lambda>t. date t = d \<and> tx_type t = ty) ts))
              (sorted_list_of_set (date ` set ts)))
         = sumAmounts (filter (\<lambda>t. tx_type t = ty) ts)"
proof -
  let ?ds = "sorted_list_of_set (date ` set ts)"
  let ?N = "\<lambda>d. sum_list (map n (filter (\<lambda>t. date t = d \<and> tx_type t = ty) ts))"
  have each: "\<And>d. sumAmounts (filter (\<lambda>t. date t = d \<and> tx_type t = ty) ts) = Fin (of_nat (?N d))"
    by (rule sumAmounts_whole [OF whole bound])
  have re: "sum_list (map ?N ?ds) = sum_list (map n (filter (\<lambda>t. tx_type t = ty) ts))"
    by (rule sum_regroup) simp_all
  with sum_filter_le [of n "\<lambda>t. tx_type t = ty" ts] bound
  have "0 + sum_list (map ?N ?ds) < 2 ^ 53" by simp
  from foldl_js_add_whole [OF this] re
  have "foldl js_add (Fin 0) (map (\<lambda>d. Fin (of_nat (?N d))) ?ds)
        = Fin (of_nat (sum_list (map n (filter (\<lambda>t. tx_type t = ty) ts))))"
    by simp
  with each sumAmounts_whole [OF whole bound, of "\<lambda>t. tx_type t = ty"] show ?thesis by simp
qed

lemma compareByCode_orders: "ordersISODates compareByCode"
  by (auto simp: ordersISODates_def compareByCode_def)

text \<open>
  C7: when the dates have the shape \<open>YYYY-MM-DD\<close>, the series has one entry for each date
  of the list, in ascending order of the date strings. The \<open>date\<close> field of an entry is the
  display label \<open>fmtShort\<close> of its date; its income and expense fields add, in the order
  of the list, the amounts of that type on that date. When the amounts are whole numbers
  with a sum below \<open>2^53\<close>, the income fields of the series add up to the income total of
  the list and the expense fields to its expense total.
\<close>

theorem series_order_and_totals:
  assumes "ordersISODates localeCompare" and "\<forall>t\<in>set ts. isISODate (date t)"
  shows "buildAreaData localeCompare fmtShort ts =
       map (\<lambda>d. \<lparr>datum_date = fmtShort d,
                  datum_income = sumAmounts (filter (\<lambda>t. date t = d \<and> tx_type t = Income) ts),
                  datum_expense = sumAmounts (filter (\<lambda>t. date t = d \<and> tx_type t = Expense) ts)\<rparr>)
         (sorted_list_of_set (date ` set ts))
   \<and> ((\<forall>t\<in>set ts. parseFloat (amount t) = Fin (of_nat (n t))) \<and> sum_list (map n ts) < 2 ^ 53 \<longrightarrow>
        foldl js_add (Fin 0) (map datum_income (buildAreaData localeCompare fmtShort ts))
          = totalIncome ts
        \<and> foldl js_add (Fin 0) (map datum_expense (buildAreaData localeCompare fmtShort ts))
          = totalExpense ts)"
proof -
  have e: "buildAreaData localeCompare fmtShort ts =
       map (\<lambda>d. \<lparr>datum_date = fmtShort d,
                  datum_income = sumAmounts (filter (\<lambda>t. date t = d \<and> tx_type t = Income) ts),
                  datum_expense = sumAmounts (filter (\<lambda>t. date t = d \<and> tx_type t = Expense) ts)\<rparr>)
         (sorted_list_of_set (date ` set ts))"
    by (simp add: buildAreaData_def areaMap_entries [OF assms] comp_def)
  have i: "map datum_income (buildAreaData localeCompare fmtShort ts)
      = map (\<lambda>d. sumAmounts (filter (\<lambda>t. date t = d \<and> tx_type t = Income) ts))
          (sorted_list_of_set (date ` set ts))"
    unfolding e by (simp add: comp_def)
  have x: "map datum_expense (buildAreaData localeCompare fmtShort ts)
      = map (\<lambda>d. sumAmounts (filter (\<lambda>t. date t = d \<and> tx_type t = Expense) ts))
          (sorted_list_of_set (date ` set ts))"
    unfolding e by (simp add: comp_def)
  from e show ?thesis
    unfolding i x totalIncome_def totalExpense_def
    using series_sum_whole [of ts n] by blast
qed

lemma scenario_totals:
  "totalIncome [\<lparr>tx_id = 1, tx_type = Expense, amount = ''50'', category = ''food'',
          description = [], date = ''2024-01-01'', created_at = [], updated_at = []\<rparr>,
         \<lparr>tx_id = 2, tx_type = Income, amount = ''200'', category = ''salary'',
          description = [], date = ''2024-01-01'', created_at = [], updated_at = []\<rparr>,
         \<lparr>tx_id = 3, tx_type = Expense, amount = ''30'', category = ''food'',
          description = [], date = ''2024-01-02'', created_at = [], updated_at = []\<rparr>] = Fin 200
   \<and> totalExpense [\<lparr>tx_id = 1, tx_type = Expense, amount = ''50'', category = ''food'',
          description = [], date = ''2024-01-01'', created_at = [], updated_at = []\<rparr>,
         \<lparr>tx_id = 2, tx_type = Income, amount = ''200'', category = ''salary'',
          description = [], date = ''2024-01-01'', created_at = [], updated_at = []\<rparr>,
         \<lparr>tx_id = 3, tx_type = Expense, amount = ''30'', category = ''food'',
          description = [], date = ''2024-01-02'', created_at = [], updated_at = []\<rparr>] = Fin 80"
proof -
  have h: "\<forall>t\<in>set [\<lparr>tx_id = 1, tx_type = Expense, amount = ''50'', category = ''food'',
          description = [], date = ''2024-01-01'', created_at = [], updated_at = []\<rparr>,
         \<lparr>tx_id = 2, tx_type = Income, amount = ''200'', category = ''salary'',
          description = [], date = ''2024-01-01'', created_at = [], updated_at = []\<rparr>,
         \<lparr>tx_id = 3, tx_type = Expense, amount = ''30'', category = ''food'',
          description = [], date = ''2024-01-02'', created_at = [], updated_at = []\<rparr>]. parseFloat (amount t) = Fin (of_nat ((\<lambda>t. if tx_id t = 1 then 50 else if tx_id t = 2 then 200 else 30) t))"
    by (simp add: parse_whole)
  have b: "sum_list (map (\<lambda>t. if tx_id t = 1 then 50 else if tx_id t = 2 then 200 else 30) [\<lparr>tx_id = 1, tx_type = Expense, amount = ''50'', category = ''food'',
          description = [], date = ''2024-01-01'', created_at = [], updated_at = []\<rparr>,
         \<lparr>tx_id = 2, tx_type = Income, amount = ''200'', category = ''salary'',
          description = [], date = ''2024-01-01'', created_at = [], updated_at = []\<rparr>,
         \<lparr>tx_id = 3, tx_type = Expense, amount = ''30'', category = ''food'',
          description = [], date = ''2024-01-02'', created_at = [], updated_at = []\<rparr>]) < (2::nat) ^ 53" by simp
  from totals_whole [OF h b] show ?thesis by simp
qed

lemma scenario_dates:
  "sorted_list_of_set (date ` set [\<lparr>tx_id = 1, tx_type = Expense, amount = ''50'', category = ''food'',
          description = [], date = ''2024-01-01'', created_at = [], updated_at = []\<rparr>,
         \<lparr>tx_id = 2, tx_type = Income, amount = ''200'', category = ''salary'',
          description = [], date = ''2024-01-01'', created_at = [], updated_at = []\<rparr>,
         \<lparr>tx_id = 3, tx_type = Expense, amount = ''30'', category = ''food'',
          description = [], date = ''2024-01-02'', created_at = [], updated_at = []\<rparr>]) = [''2024-01-01'', ''2024-01-02'']"
  by code_simp

lemma scenario_labels:
  "fmtShortUTC ''2024-01-01'' = ''Jan 1'' \<and> fmtShortUTC ''2024-01-02'' = ''Jan 2''"
  by code_simp

theorem series_order_and_totals_witness:
  "ordersISODates compareByCode
   \<and> list_all (\<lambda>t. isISODate (date t))
       [\<lparr>tx_id = 1, tx_type = Expense, amount = ''50'', category = ''food'',
          description = [], date = ''2024-01-01'', created_at = [], updated_at = []\<rparr>,
         \<lparr>tx_id = 2, tx_type = Income, amount = ''200'', category = ''salary'',
          description = [], date = ''2024-01-01'', created_at = [], updated_at = []\<rparr>,
         \<lparr>tx_id = 3, tx_type = Expense, amount = ''30'', category = ''food'',
          description = [], date = ''2024-01-02'', created_at = [], updated_at = []\<rparr>]
   \<and> list_all (\<lambda>t. parseFloat (amount t) = Fin (of_nat (if tx_id t = 1 then 50 else if tx_id t = 2 then 200 else 30)))
       [\<lparr>tx_id = 1, tx_type = Expense, amount = ''50'', category = ''food'',
          description = [], date = ''2024-01-01'', created_at = [], updated_at = []\<rparr>,
         \<lparr>tx_id = 2, tx_type = Income, amount = ''200'', category = ''salary'',
          description = [], date = ''2024-01-01'', created_at = [], updated_at = []\<rparr>,
         \<lparr>tx_id = 3, tx_type = Expense, amount = ''30'', category = ''food'',
          description = [], date = ''2024-01-02'', created_at = [], updated_at = []\<rparr>]
   \<and> sum_list (map (\<lambda>t. if tx_id t = 1 then 50 else if tx_id t = 2 then 200 else 30) [\<lparr>tx_id = 1, tx_type = Expense, amount = ''50'', category = ''food'',
          description = [], date = ''2024-01-01'', created_at = [], updated_at = []\<rparr>,
         \<lparr>tx_id = 2, tx_type = Income, amount = ''200'', category = ''salary'',
          description = [], date = ''2024-01-01'', created_at = [], updated_at = []\<rparr>,
         \<lparr>tx_id = 3, tx_type = Expense, amount = ''30'', category = ''food'',
          description = [], date = ''2024-01-02'', created_at = [], updated_at = []\<rparr>]) < (2::nat) ^ 53
   \<and> map datum_date (buildAreaData compareByCode fmtShortUTC [\<lparr>tx_id = 1, tx_type = Expense, amount = ''50'', category = ''food'',
          description = [], date = ''2024-01-01'', created_at = [], updated_at = []\<rparr>,
         \<lparr>tx_id = 2, tx_type = Income, amount = ''200'', category = ''salary'',
          description = [], date = ''2024-01-01'', created_at = [], updated_at = []\<rparr>,
         \<lparr>tx_id = 3, tx_type = Expense, amount = ''30'', category = ''food'',
          description = [], date = ''2024-01-02'', created_at = [], updated_at = []\<rparr>]) = [''Jan 1'', ''Jan 2'']
   \<and> foldl js_add (Fin 0) (map datum_income (buildAreaData compareByCode fmtShortUTC [\<lparr>tx_id = 1, tx_type = Expense, amount = ''50'', category = ''food'',
          description = [], date = ''2024-01-01'', created_at = [], updated_at = []\<rparr>,
         \<lparr>tx_id = 2, tx_type = Income, amount = ''200'', category = ''salary'',
          description = [], date = ''2024-01-01'', created_at = [], updated_at = []\<rparr>,
         \<lparr>tx_id = 3, tx_type = Expense, amount = ''30'', category = ''food'',
          description = [], date = ''2024-01-02'', created_at = [], updated_at = []\<rparr>]))
       = Fin 200
   \<and> foldl js_add (Fin 0) (map datum_expense (buildAreaData compareByCode fmtShortUTC [\<lparr>tx_id = 1, tx_type = Expense, amount = ''50'', category = ''food'',
          description = [], date = ''2024-01-01'', created_at = [], updated_at = []\<rparr>,
         \<lparr>tx_id = 2, tx_type = Income, amount = ''200'', category = ''salary'',
          description = [], date = ''2024-01-01'', created_at = [], updated_at = []\<rparr>,
         \<lparr>tx_id = 3, tx_type = Expense, amount = ''30'', category = ''food'',
          description = [], date = ''2024-01-02'', created_at = [], updated_at = []\<rparr>]))
       = Fin 80"
  (is "?o \<and> ?i \<and> ?whole \<and> ?bound \<and> ?labels \<and> ?inc \<and> ?exp")
proof -
  have o: ?o by (rule compareByCode_orders)
  have i: ?i by (simp add: isISODate_def isDecimalDigit_def)
  have h: ?whole by (simp add: parse_whole)
  have b: ?bound by simp
  note t = series_order_and_totals [OF o i [unfolded list_all_iff],
      where fmtShort = fmtShortUTC
        and n = "(\<lambda>t. if tx_id t = 1 then 50 else if tx_id t = 2 then 200 else 30)"]
  have l: ?labels
    unfolding t [THEN conjunct1] scenario_dates by (simp add: scenario_labels)
  from t [THEN conjunct2, THEN mp, OF conjI [OF h [unfolded list_all_iff] b]] scenario_totals
  have s: "?inc \<and> ?exp" by (simp only:)
  from o i h b l s show ?thesis by blast
qed

text \<open>
  The \<open>date\<close> fields of the series are
  display labels, and the labels \<open>Mar 15\<close>, \<open>Apr 15\<close> of two dates in ascending order are
  not in ascending order as strings. And with incomes of 0.10 on the first date and of
  0.20 and 0.30 on the second, the income total of the list is 0.6000000000000001 while
  the income fields of the series add up to 0.6.
\<close>

lemma uneven_series:
  "buildAreaData compareByCode fmtShortUTC [\<lparr>tx_id = 1, tx_type = Income, amount = ''0.10'', category = ''salary'',
          description = [], date = ''2024-03-15'', created_at = [], updated_at = []\<rparr>,
         \<lparr>tx_id = 2, tx_type = Income, amount = ''0.20'', category = ''freelance'',
          description = [], date = ''2024-04-15'', created_at = [], updated_at = []\<rparr>,
         \<lparr>tx_id = 3, tx_type = Income, amount = ''0.30'', category = ''gift'',
          description = [], date = ''2024-04-15'', created_at = [], updated_at = []\<rparr>] =
     [\<lparr>datum_date = ''Mar 15'', datum_income = Fin (3602879701896397 / 36028797018963968),
       datum_expense = Fin 0\<rparr>,
      \<lparr>datum_date = ''Apr 15'', datum_income = Fin (1 / 2), datum_expense = Fin 0\<rparr>]"
  by code_simp

lemma uneven_total:
  "totalIncome [\<lparr>tx_id = 1, tx_type = Income, amount = ''0.10'', category = ''salary'',
          description = [], date = ''2024-03-15'', created_at = [], updated_at = []\<rparr>,
         \<lparr>tx_id = 2, tx_type = Income, amount = ''0.20'', category = ''freelance'',
          description = [], date = ''2024-04-15'', created_at = [], updated_at = []\<rparr>,
         \<lparr>tx_id = 3, tx_type = Income, amount = ''0.30'', category = ''gift'',
          description = [], date = ''2024-04-15'', created_at = [], updated_at = []\<rparr>] = Fin (1351079888211149 / 2251799813685248)"
  by code_simp

lemma uneven_series_sum:
  "foldl js_add (Fin 0) (map datum_income
     [\<lparr>datum_date = ''Mar 15'', datum_income = Fin (3602879701896397 / 36028797018963968),
       datum_expense = Fin 0\<rparr>,
      \<lparr>datum_date = ''Apr 15'', datum_income = Fin (1 / 2), datum_expense = Fin 0\<rparr>])
     = Fin (5404319552844595 / 9007199254740992)"
  by code_simp

lemma labels_unsorted: "\<not> sorted [''Mar 15'', ''Apr 15'']"
  by code_simp

theorem series_labels_counterexample:
  "map datum_date (buildAreaData compareByCode fmtShortUTC [\<lparr>tx_id = 1, tx_type = Income, amount = ''0.10'', category = ''salary'',
          description = [], date = ''2024-03-15'', created_at = [], updated_at = []\<rparr>,
         \<lparr>tx_id = 2, tx_type = Income, amount = ''0.20'', category = ''freelance'',
          description = [], date = ''2024-04-15'', created_at = [], updated_at = []\<rparr>,
         \<lparr>tx_id = 3, tx_type = Income, amount = ''0.30'', category = ''gift'',
          description = [], date = ''2024-04-15'', created_at = [], updated_at = []\<rparr>]) = [''Mar 15'', ''Apr 15'']
   \<and> \<not> sorted [''Mar 15'', ''Apr 15'']
   \<and> totalIncome [\<lparr>tx_id = 1, tx_type = Income, amount = ''0.10'', category = ''salary'',
          description = [], date = ''2024-03-15'', created_at = [], updated_at = []\<rparr>,
         \<lparr>tx_id = 2, tx_type = Income, amount = ''0.20'', category = ''freelance'',
          description = [], date = ''2024-04-15'', created_at = [], updated_at = []\<rparr>,
         \<lparr>tx_id = 3, tx_type = Income, amount = ''0.30'', category = ''gift'',
          description = [], date = ''2024-04-15'', created_at = [], updated_at = []\<rparr>] = Fin (1351079888211149 / 2251799813685248)
   \<and> foldl js_add (Fin 0) (map datum_income (buildAreaData compareByCode fmtShortUTC [\<lparr>tx_id = 1, tx_type = Income, amount = ''0.10'', category = ''salary'',
          description = [], date = ''2024-03-15'', created_at = [], updated_at = []\<rparr>,
         \<lparr>tx_id = 2, tx_type = Income, amount = ''0.20'', category = ''freelance'',
          description = [], date = ''2024-04-15'', created_at = [], updated_at = []\<rparr>,
         \<lparr>tx_id = 3, tx_type = Income, amount = ''0.30'', category = ''gift'',
          description = [], date = ''2024-04-15'', created_at = [], updated_at = []\<rparr>]))
       = Fin (5404319552844595 / 9007199254740992)
   \<and> foldl js_add (Fin 0) (map datum_income (buildAreaData compareByCode fmtShortUTC [\<lparr>tx_id = 1, tx_type = Income, amount = ''0.10'', category = ''salary'',
          description = [], date = ''2024-03-15'', created_at = [], updated_at = []\<rparr>,
         \<lparr>tx_id = 2, tx_type = Income, amount = ''0.20'', category = ''freelance'',
          description = [], date = ''2024-04-15'', created_at = [], updated_at = []\<rparr>,
         \<lparr>tx_id = 3, tx_type = Income, amount = ''0.30'', category = ''gift'',
          description = [], date = ''2024-04-15'', created_at = [], updated_at = []\<rparr>]))
       \<noteq> totalIncome [\<lparr>tx_id = 1, tx_type = Income, amount = ''0.10'', category = ''salary'',
          description = [], date = ''2024-03-15'', created_at = [], updated_at = []\<rparr>,
         \<lparr>tx_id = 2, tx_type = Income, amount = ''0.20'', category = ''freelance'',
          description = [], date = ''2024-04-15'', created_at = [], updated_at = []\<rparr>,
         \<lparr>tx_id = 3, tx_type = Income, amount = ''0.30'', category = ''gift'',
          description = [], date = ''2024-04-15'', created_at = [], updated_at = []\<rparr>]"
proof -
  have "(5404319552844595 / 9007199254740992 :: rat) \<noteq> 1351079888211149 / 2251799813685248"
    by simp
  then show ?thesis
    unfolding uneven_total uneven_series_sum [folded uneven_series]
    using labels_unsorted by (simp add: uneven_series)
qed

section \<open>Malformed amounts\<close>

lemma map_of_pieStep:
  "map_of (pieStep m t) =
     (map_of m)(category t \<mapsto>
        js_add (case map_of m (category t) of None \<Rightarrow> Fin 0 | Some v \<Rightarrow> v)
          (parseFloat (amount t)))"
  by (simp add: pieStep_def map_of_jsMapSet)

lemma pie_lookup_fold:
  "map_of (foldl pieStep m ts) c =
     (case map_of m c of
        Some v \<Rightarrow> Some (addAmounts v (filter (\<lambda>t. category t = c) ts))
      | None \<Rightarrow>
          if c \<in> category ` set ts
          then Some (addAmounts (Fin 0) (filter (\<lambda>t. category t = c) ts))
          else None)"
proof (induction ts arbitrary: m)
  case Nil
  show ?case by (cases "map_of m c") (simp_all add: addAmounts_Nil)
next
  case (Cons t ts)
  show ?case
    unfolding foldl_Cons Cons.IH [of "pieStep m t"]
    by (cases "map_of m c"; cases "c = category t")
       (auto simp: map_of_pieStep addAmounts_Cons)
qed

lemma pie_keys_distinct: "distinct (map fst m) \<Longrightarrow> distinct (map fst (foldl pieStep m ts))"
  by (induction ts arbitrary: m) (simp_all add: pieStep_def keys_jsMapSet)

lemma pieMap_member:
  "((c, v) \<in> set (pieMap ts)) =
     (c \<in> category ` set (filter (\<lambda>t. tx_type t = Expense) ts)
      \<and> v = sumAmounts (filter (\<lambda>t. category t = c) (filter (\<lambda>t. tx_type t = Expense) ts)))"
proof -
  have d: "distinct (map fst (pieMap ts))"
    unfolding pieMap_def by (rule pie_keys_distinct) simp
  have "((c, v) \<in> set (pieMap ts)) = (map_of (pieMap ts) c = Some v)"
    using map_of_eq_Some_iff [OF d] by simp
  then show ?thesis
    by (auto simp: pieMap_def pie_lookup_fold sumAmounts_def)
qed

lemma buildPieData_member:
  "((c, w) \<in> set (buildPieData ts)) = (\<exists>v. (c, v) \<in> set (pieMap ts) \<and> w = parseFloat_toFixed2 v)"
  by (auto simp: buildPieData_def set_sortBy)

lemma not_Income: "(tx_type t \<noteq> Income) = (tx_type t = Expense)"
  by (cases "tx_type t") simp_all

lemma not_Expense: "(tx_type t \<noteq> Expense) = (tx_type t = Income)"
  by (cases "tx_type t") simp_all

lemma sumAmounts_poisoned:
  "t \<in> set ts \<Longrightarrow> parseFloat (amount t) = NaN \<Longrightarrow> sumAmounts ts = NaN"
  unfolding sumAmounts_def by (rule addAmounts_poisoned)

lemma area_entry_poisoned:
  assumes "b \<in> set ts" and "parseFloat (amount b) = NaN"
  shows "\<exists>v. map_of (areaMap lc ts) (date b) = Some v
          \<and> (if tx_type b = Income then income v else expense v) = NaN"
proof -
  let ?l = "sortBy (\<lambda>a b. 0 < lc (date a) (date b)) ts"
  from assms(1) have m: "b \<in> set ?l" by (simp add: set_sortBy)
  then have d: "date b \<in> date ` set ?l" by (rule imageI)
  have i: "tx_type b = Income \<Longrightarrow>
      addAmounts (Fin 0) (filter (\<lambda>t. date t = date b \<and> tx_type t = Income) ?l) = NaN"
    using m assms(2) by (intro addAmounts_poisoned [of b]) simp_all
  have e: "tx_type b \<noteq> Income \<Longrightarrow>
      addAmounts (Fin 0) (filter (\<lambda>t. date t = date b \<and> tx_type t = Expense) ?l) = NaN"
    using m assms(2) by (intro addAmounts_poisoned [of b]) (simp_all add: not_Income)
  from d i e show ?thesis
    by (cases "tx_type b = Income") (simp_all add: areaMap_def area_lookup_fold)
qed

lemma unreadable_prefix_total:
  "totalIncome [\<lparr>tx_id = 1, tx_type = Income, amount = ''12abc'', category = ''salary'',
          description = [], date = ''2024-01-01'', created_at = [], updated_at = []\<rparr>,
         \<lparr>tx_id = 2, tx_type = Income, amount = ''100'', category = ''salary'',
          description = [], date = ''2024-01-02'', created_at = [], updated_at = []\<rparr>] = Fin 112"
  by (simp add: totalIncome_def sumAmounts_def addAmounts_def parse_prefix parse_whole
      roundDouble_numeral)

text \<open>
  C3: a record whose amount \<open>parseFloat\<close> cannot read contributes \<open>NaN\<close>. No aggregation
  stops, and every sum that the record is not part of is what it is without the record:
  the total of the other type, the slices of the other categories and, when the dates
  have the shape \<open>YYYY-MM-DD\<close>, the series entries of the other dates and the other field
  of its own date. The sums it is part of are \<open>NaN\<close>: the total of its type, the net
  balance, the field of its type at its date, and for an expense the slice of its
  category. An amount that is not a number as a whole but begins with one is read as
  that number: \<open>12abc\<close> as 12, \<open>1,000.50\<close> as 1, \<open>50 USD\<close> as 50, and an income of
  \<open>12abc\<close> next to one of 100 gives the income total 112.
\<close>

theorem malformed_amount_poisons_its_sums:
  assumes bad: "parseFloat (amount b) = NaN"
  shows "net (xs @ b # ys) = NaN
   \<and> (tx_type b = Income \<longrightarrow>
        totalIncome (xs @ b # ys) = NaN \<and> totalExpense (xs @ b # ys) = totalExpense (xs @ ys))
   \<and> (tx_type b = Expense \<longrightarrow>
        totalExpense (xs @ b # ys) = NaN \<and> totalIncome (xs @ b # ys) = totalIncome (xs @ ys))
   \<and> (\<exists>v. map_of (areaMap localeCompare (xs @ b # ys)) (date b) = Some v
          \<and> (if tx_type b = Income then income v else expense v) = NaN)
   \<and> (ordersISODates localeCompare \<and> (\<forall>t\<in>set (xs @ b # ys). isISODate (date t)) \<longrightarrow>
        (\<forall>d. d \<noteq> date b \<longrightarrow>
           map_of (areaMap localeCompare (xs @ b # ys)) d
             = map_of (areaMap localeCompare (xs @ ys)) d)
        \<and> (\<exists>v. map_of (areaMap localeCompare (xs @ b # ys)) (date b) = Some v
              \<and> (if tx_type b = Income then expense v else income v)
                  = sumAmounts
                      (filter (\<lambda>t. date t = date b \<and> tx_type t \<noteq> tx_type b) (xs @ ys))))
   \<and> (tx_type b = Expense \<longrightarrow> (category b, NaN) \<in> set (buildPieData (xs @ b # ys)))
   \<and> (\<forall>c v. c \<noteq> category b \<longrightarrow>
          ((c, v) \<in> set (buildPieData (xs @ b # ys))) = ((c, v) \<in> set (buildPieData (xs @ ys))))
   \<and> (tx_type b = Income \<longrightarrow> buildPieData (xs @ b # ys) = buildPieData (xs @ ys))
   \<and> parseFloat ''12abc'' = Fin 12 \<and> parseFloat ''1,000.50'' = Fin 1
   \<and> parseFloat ''50 USD'' = Fin 50
   \<and> totalIncome [\<lparr>tx_id = 1, tx_type = Income, amount = ''12abc'', category = ''salary'',
          description = [], date = ''2024-01-01'', created_at = [], updated_at = []\<rparr>,
         \<lparr>tx_id = 2, tx_type = Income, amount = ''100'', category = ''salary'',
          description = [], date = ''2024-01-02'', created_at = [], updated_at = []\<rparr>] = Fin 112"
proof -
  have inc: "tx_type b = Income \<longrightarrow>
        totalIncome (xs @ b # ys) = NaN \<and> totalExpense (xs @ b # ys) = totalExpense (xs @ ys)"
  proof (intro impI conjI)
    assume t: "tx_type b = Income"
    then have "b \<in> set (filter (\<lambda>t. tx_type t = Income) (xs @ b # ys))" by simp
    from sumAmounts_poisoned [OF this bad] show "totalIncome (xs @ b # ys) = NaN"
      by (simp only: totalIncome_def)
    from t show "totalExpense (xs @ b # ys) = totalExpense (xs @ ys)"
      by (simp add: totalExpense_def)
  qed
  have exp: "tx_type b = Expense \<longrightarrow>
        totalExpense (xs @ b # ys) = NaN \<and> totalIncome (xs @ b # ys) = totalIncome (xs @ ys)"
  proof (intro impI conjI)
    assume t: "tx_type b = Expense"
    then have "b \<in> set (filter (\<lambda>t. tx_type t = Expense) (xs @ b # ys))" by simp
    from sumAmounts_poisoned [OF this bad] show "totalExpense (xs @ b # ys) = NaN"
      by (simp only: totalExpense_def)
    from t show "totalIncome (xs @ b # ys) = totalIncome (xs @ ys)"
      by (simp add: totalIncome_def)
  qed
  have nt: "net (xs @ b # ys) = NaN"
    using inc exp by (cases "tx_type b") (simp_all add: net_def js_sub_def js_add_NaN_right)
  have entry: "\<exists>v. map_of (areaMap localeCompare (xs @ b # ys)) (date b) = Some v
          \<and> (if tx_type b = Income then income v else expense v) = NaN"
    by (rule area_entry_poisoned [OF _ bad]) simp
  have series: "ordersISODates localeCompare \<and> (\<forall>t\<in>set (xs @ b # ys). isISODate (date t)) \<longrightarrow>
        (\<forall>d. d \<noteq> date b \<longrightarrow>
           map_of (areaMap localeCompare (xs @ b # ys)) d
             = map_of (areaMap localeCompare (xs @ ys)) d)
        \<and> (\<exists>v. map_of (areaMap localeCompare (xs @ b # ys)) (date b) = Some v
              \<and> (if tx_type b = Income then expense v else income v)
                  = sumAmounts
                      (filter (\<lambda>t. date t = date b \<and> tx_type t \<noteq> tx_type b) (xs @ ys)))"
  proof (intro impI, elim conjE)
    assume o: "ordersISODates localeCompare"
      and i: "\<forall>t\<in>set (xs @ b # ys). isISODate (date t)"
    then have i': "\<forall>t\<in>set (xs @ ys). isISODate (date t)" by simp
    have others: "\<forall>d. d \<noteq> date b \<longrightarrow>
           map_of (areaMap localeCompare (xs @ b # ys)) d
             = map_of (areaMap localeCompare (xs @ ys)) d"
      unfolding area_lookup [OF o i] area_lookup [OF o i'] by auto
    have other: "\<exists>v. map_of (areaMap localeCompare (xs @ b # ys)) (date b) = Some v
              \<and> (if tx_type b = Income then expense v else income v)
                  = sumAmounts
                      (filter (\<lambda>t. date t = date b \<and> tx_type t \<noteq> tx_type b) (xs @ ys))"
      unfolding area_lookup [OF o i]
      by (cases "tx_type b") (simp_all add: not_Income not_Expense)
    from others other show "(\<forall>d. d \<noteq> date b \<longrightarrow>
           map_of (areaMap localeCompare (xs @ b # ys)) d
             = map_of (areaMap localeCompare (xs @ ys)) d)
        \<and> (\<exists>v. map_of (areaMap localeCompare (xs @ b # ys)) (date b) = Some v
              \<and> (if tx_type b = Income then expense v else income v)
                  = sumAmounts
                      (filter (\<lambda>t. date t = date b \<and> tx_type t \<noteq> tx_type b) (xs @ ys)))"
      by (rule conjI)
  qed
  have slice: "tx_type b = Expense \<longrightarrow> (category b, NaN) \<in> set (buildPieData (xs @ b # ys))"
  proof
    assume e: "tx_type b = Expense"
    have "sumAmounts (filter (\<lambda>t. category t = category b)
             (filter (\<lambda>t. tx_type t = Expense) (xs @ b # ys))) = NaN"
      using e bad by (intro sumAmounts_poisoned [of b]) simp_all
    moreover have "category b \<in> category ` set (filter (\<lambda>t. tx_type t = Expense) (xs @ b # ys))"
      using e by simp
    ultimately have "(category b, NaN) \<in> set (pieMap (xs @ b # ys))"
      by (simp only: pieMap_member)
    moreover have "parseFloat_toFixed2 NaN = NaN" by (simp add: parseFloat_toFixed2_def)
    ultimately show "(category b, NaN) \<in> set (buildPieData (xs @ b # ys))"
      unfolding buildPieData_member by metis
  qed
  have slices: "\<forall>c v. c \<noteq> category b \<longrightarrow>
      ((c, v) \<in> set (buildPieData (xs @ b # ys))) = ((c, v) \<in> set (buildPieData (xs @ ys)))"
    by (auto simp: buildPieData_member pieMap_member)
  have same: "tx_type b = Income \<longrightarrow> buildPieData (xs @ b # ys) = buildPieData (xs @ ys)"
    by (simp add: buildPieData_def pieMap_def)
  from nt inc exp entry series slice slices same parse_prefix unreadable_prefix_total
  show ?thesis by blast
qed

theorem malformed_amount_poisons_its_sums_witness:
  "parseFloat (amount \<lparr>tx_id = 1, tx_type = Income, amount = ''abc'', category = ''salary'',
          description = [], date = ''2024-01-01'', created_at = [], updated_at = []\<rparr>) = NaN
   \<and> parseFloat (amount \<lparr>tx_id = 3, tx_type = Expense, amount = ''n/a'', category = ''food'',
          description = [], date = ''2024-01-01'', created_at = [], updated_at = []\<rparr>) = NaN
   \<and> ordersISODates compareByCode
   \<and> list_all (\<lambda>t. isISODate (date t))
       ([] @ \<lparr>tx_id = 1, tx_type = Income, amount = ''abc'', category = ''salary'',
          description = [], date = ''2024-01-01'', created_at = [], updated_at = []\<rparr> # [\<lparr>tx_id = 2, tx_type = Income, amount = ''100'', category = ''salary'',
          description = [], date = ''2024-01-02'', created_at = [], updated_at = []\<rparr>])
   \<and> net [\<lparr>tx_id = 1, tx_type = Income, amount = ''abc'', category = ''salary'',
          description = [], date = ''2024-01-01'', created_at = [], updated_at = []\<rparr>,
          \<lparr>tx_id = 2, tx_type = Income, amount = ''100'', category = ''salary'',
          description = [], date = ''2024-01-02'', created_at = [], updated_at = []\<rparr>] = NaN
   \<and> totalIncome [\<lparr>tx_id = 1, tx_type = Income, amount = ''abc'', category = ''salary'',
          description = [], date = ''2024-01-01'', created_at = [], updated_at = []\<rparr>,
          \<lparr>tx_id = 2, tx_type = Income, amount = ''100'', category = ''salary'',
          description = [], date = ''2024-01-02'', created_at = [], updated_at = []\<rparr>] = NaN
   \<and> totalExpense [\<lparr>tx_id = 2, tx_type = Income, amount = ''100'', category = ''salary'',
          description = [], date = ''2024-01-02'', created_at = [], updated_at = []\<rparr>,
          \<lparr>tx_id = 3, tx_type = Expense, amount = ''n/a'', category = ''food'',
          description = [], date = ''2024-01-01'', created_at = [], updated_at = []\<rparr>] = NaN
   \<and> totalIncome [\<lparr>tx_id = 2, tx_type = Income, amount = ''100'', category = ''salary'',
          description = [], date = ''2024-01-02'', created_at = [], updated_at = []\<rparr>,
          \<lparr>tx_id = 3, tx_type = Expense, amount = ''n/a'', category = ''food'',
          description = [], date = ''2024-01-01'', created_at = [], updated_at = []\<rparr>] = Fin 100
   \<and> map_of (areaMap compareByCode [\<lparr>tx_id = 1, tx_type = Income, amount = ''abc'', category = ''salary'',
          description = [], date = ''2024-01-01'', created_at = [], updated_at = []\<rparr>,
          \<lparr>tx_id = 2, tx_type = Income, amount = ''100'', category = ''salary'',
          description = [], date = ''2024-01-02'', created_at = [], updated_at = []\<rparr>]) ''2024-01-02''
       = Some \<lparr>income = Fin 100, expense = Fin 0\<rparr>
   \<and> (''food'', NaN) \<in> set (buildPieData [\<lparr>tx_id = 2, tx_type = Income, amount = ''100'', category = ''salary'',
          description = [], date = ''2024-01-02'', created_at = [], updated_at = []\<rparr>,
          \<lparr>tx_id = 3, tx_type = Expense, amount = ''n/a'', category = ''food'',
          description = [], date = ''2024-01-01'', created_at = [], updated_at = []\<rparr>])
   \<and> buildPieData [\<lparr>tx_id = 1, tx_type = Income, amount = ''abc'', category = ''salary'',
          description = [], date = ''2024-01-01'', created_at = [], updated_at = []\<rparr>,
          \<lparr>tx_id = 2, tx_type = Income, amount = ''100'', category = ''salary'',
          description = [], date = ''2024-01-02'', created_at = [], updated_at = []\<rparr>] = []"
  (is "?b1 \<and> ?b3 \<and> ?o \<and> ?i \<and> ?net \<and> ?ti \<and> ?te \<and> ?ti' \<and> ?area \<and> ?pie \<and> ?pie'")
proof -
  have b1: ?b1 by (simp add: parse_unreadable)
  have b3: ?b3 by (simp add: parse_unreadable)
  have o: ?o by (rule compareByCode_orders)
  have i: ?i by (simp add: isISODate_def isDecimalDigit_def)
  note t1 = malformed_amount_poisons_its_sums
    [where b = "\<lparr>tx_id = 1, tx_type = Income, amount = ''abc'', category = ''salary'',
          description = [], date = ''2024-01-01'', created_at = [], updated_at = []\<rparr>" and xs = "[]"
       and ys = "[\<lparr>tx_id = 2, tx_type = Income, amount = ''100'', category = ''salary'',
          description = [], date = ''2024-01-02'', created_at = [], updated_at = []\<rparr>]" and localeCompare = compareByCode, OF b1]
  note t3 = malformed_amount_poisons_its_sums
    [where b = "\<lparr>tx_id = 3, tx_type = Expense, amount = ''n/a'', category = ''food'',
          description = [], date = ''2024-01-01'', created_at = [], updated_at = []\<rparr>"
       and xs = "[\<lparr>tx_id = 2, tx_type = Income, amount = ''100'', category = ''salary'',
          description = [], date = ''2024-01-02'', created_at = [], updated_at = []\<rparr>]" and ys = "[]" and localeCompare = compareByCode, OF b3]
  have one: "totalIncome [\<lparr>tx_id = 2, tx_type = Income, amount = ''100'', category = ''salary'',
          description = [], date = ''2024-01-02'', created_at = [], updated_at = []\<rparr>] = Fin 100
      \<and> map_of (areaMap compareByCode [\<lparr>tx_id = 2, tx_type = Income, amount = ''100'', category = ''salary'',
          description = [], date = ''2024-01-02'', created_at = [], updated_at = []\<rparr>]) ''2024-01-02''
          = Some \<lparr>income = Fin 100, expense = Fin 0\<rparr>
      \<and> buildPieData [\<lparr>tx_id = 2, tx_type = Income, amount = ''100'', category = ''salary'',
          description = [], date = ''2024-01-02'', created_at = [], updated_at = []\<rparr>] = []"
    by (simp add: totalIncome_def sumAmounts_def addAmounts_def parse_whole roundDouble_numeral
        areaMap_def sortBy_def areaStep_def buildPieData_def pieMap_def)
  from t1 [THEN conjunct1] have n: ?net by simp
  from t1 [THEN conjunct2, THEN conjunct1] have ti: ?ti by simp
  from t3 [THEN conjunct2, THEN conjunct2, THEN conjunct1] one have te: "?te \<and> ?ti'" by simp
  from t1 [THEN conjunct2, THEN conjunct2, THEN conjunct2, THEN conjunct2, THEN conjunct1,
      THEN mp, OF conjI [OF o i [unfolded list_all_iff]], THEN conjunct1, THEN spec, of "''2024-01-02''"] one
  have a: ?area by simp
  from t3 [THEN conjunct2, THEN conjunct2, THEN conjunct2, THEN conjunct2, THEN conjunct2,
      THEN conjunct1]
  have p: ?pie by simp
  from t1 [THEN conjunct2, THEN conjunct2, THEN conjunct2, THEN conjunct2, THEN conjunct2,
      THEN conjunct2, THEN conjunct2, THEN conjunct1] one
  have p': ?pie' by simp
  from b1 b3 o i n ti te a p p' show ?thesis by blast
qed

text \<open>
  With an unreadable income next to an income of 100 the income total is \<open>NaN\<close>, not
  the 100 of the well-formed record.
\<close>

theorem malformed_amount_counterexample:
  "totalIncome
     [\<lparr>tx_id = 1, tx_type = Income, amount = ''abc'', category = ''salary'',
          description = [], date = ''2024-01-01'', created_at = [], updated_at = []\<rparr>,
      \<lparr>tx_id = 2, tx_type = Income, amount = ''100'', category = ''salary'',
          description = [], date = ''2024-01-02'', created_at = [], updated_at = []\<rparr>] = NaN
   \<and> totalIncome
     [\<lparr>tx_id = 2, tx_type = Income, amount = ''100'', category = ''salary'',
          description = [], date = ''2024-01-02'', created_at = [], updated_at = []\<rparr>] = Fin 100"
  by (simp add: totalIncome_def sumAmounts_def addAmounts_def parse_unreadable parse_whole
      roundDouble_numeral)

end
